theory Spec2Isabelle
  imports Main
begin

text \<open>
  A model of \<open>stylish.js\<close>. The source file holds four drafts of the engine, one after
  the other. Part 1 (lines 1 to 407, the module that exports \<open>Stylish\<close>) is the engine
  modelled here. Of the older drafts (part 2: lines 408 to 670, part 3: lines 671 to
  1140, part 4: lines 1141 to 1587) only the \<open>on\<close> trigger of part 4 is modelled as
  well, next to the one of part 1.
\<close>

section \<open>JavaScript strings\<close>

text \<open>
  A JavaScript string is a sequence of UTF-16 code units. A code unit is modelled as a
  natural number, so every JavaScript string is a list of this type (with all units
  below 65536) and a statement about all lists covers all strings. \<open>js\<close> turns
  an ASCII literal into such a list.
\<close>

type_synonym code_unit = nat
type_synonym jsstring = "code_unit list"

definition js :: "string \<Rightarrow> jsstring" where
  "js s = map of_char s"

text \<open>\<open>Stylish.ATTRIBUTE_NAME = 'stylish'\<close>.\<close>

definition ATTRIBUTE_NAME :: jsstring where
  "ATTRIBUTE_NAME = js ''stylish''"

text \<open>The character class \<open>['"]\<close> of both regular expressions: U+0027 and U+0022.\<close>

definition is_quote :: "code_unit \<Rightarrow> bool" where
  "is_quote c = (c = 39 \<or> c = 34)"

text \<open>
  What \<open>.\<close> refuses in a regular expression without the \<open>s\<close> flag: the ECMAScript
  line terminators LF, CR, U+2028 and U+2029.
\<close>

definition line_terminator :: "code_unit \<Rightarrow> bool" where
  "line_terminator c = (c = 10 \<or> c = 13 \<or> c = 8232 \<or> c = 8233)"

text \<open>
  What \<open>String.prototype.trim\<close> strips: the ECMAScript white space code points (TAB, VT,
  FF, SP, NBSP, the other space separators of Unicode and U+FEFF) and the line
  terminators.
\<close>

definition white_space :: "code_unit \<Rightarrow> bool" where
  "white_space c = (c = 9 \<or> c = 11 \<or> c = 12 \<or> c = 32 \<or> c = 160 \<or> c = 5760
     \<or> (8192 \<le> c \<and> c \<le> 8202) \<or> c = 8239 \<or> c = 8287 \<or> c = 12288 \<or> c = 65279
     \<or> line_terminator c)"

definition trim :: "jsstring \<Rightarrow> jsstring" where
  "trim s = rev (dropWhile white_space (rev (dropWhile white_space s)))"


section \<open>The expression extractor\<close>

text \<open>
  \<open>Stylish.REGEXP_EXPRESSION\<close> is \<open>^['"]?stylish\((.*)\)['"]?$\<close>. The functions below
  run it the way a backtracking matcher does, piece by piece from the left.
  \<open>strip_prefix\<close> matches literal characters.
\<close>

fun strip_prefix :: "jsstring \<Rightarrow> jsstring \<Rightarrow> jsstring option" where
  "strip_prefix [] s = Some s"
| "strip_prefix (p # ps) [] = None"
| "strip_prefix (p # ps) (c # cs) = (if p = c then strip_prefix ps cs else None)"

text \<open>
  The tail \<open>\)['"]?$\<close>: a closing parenthesis, then the greedy optional quote, then the
  end of the input. When the quote is not taken the end of the input must follow the
  parenthesis directly.
\<close>

definition closing :: "jsstring \<Rightarrow> bool" where
  "closing s = (case s of [] \<Rightarrow> False
     | c # r \<Rightarrow> c = 41 \<and> (case r of [] \<Rightarrow> True | q # r' \<Rightarrow> is_quote q \<and> r' = []))"

text \<open>
  The group \<open>(.*)\<close> followed by the tail: \<open>group k s\<close> tries the group with the first
  \<open>k\<close> characters of \<open>s\<close> and gives one character back each time the tail fails.
\<close>

fun group :: "nat \<Rightarrow> jsstring \<Rightarrow> jsstring option" where
  "group 0 s = (if closing s then Some [] else None)"
| "group (Suc k) s = (if closing (drop (Suc k) s) then Some (take (Suc k) s) else group k s)"

text \<open>
  \<open>stylish\((.*)\)['"]?$\<close>: the name and the opening parenthesis, then the greedy group,
  which starts with as many characters as \<open>.\<close> accepts.
\<close>

definition after_opening :: "jsstring \<Rightarrow> jsstring option" where
  "after_opening s = (case strip_prefix (ATTRIBUTE_NAME @ [40]) s of None \<Rightarrow> None
     | Some r \<Rightarrow> group (length (takeWhile (\<lambda>c. \<not> line_terminator c) r)) r)"

text \<open>
  The whole expression, anchored at the start: the greedy optional quote is taken when
  there is one, and given back when the rest fails. The result is the text of group 1,
  or \<open>None\<close> when the input does not match.
\<close>

definition REGEXP_EXPRESSION_exec :: "jsstring \<Rightarrow> jsstring option" where
  "REGEXP_EXPRESSION_exec content = (case content of [] \<Rightarrow> after_opening []
     | q # r \<Rightarrow> if is_quote q
         then (case after_opening r of Some g \<Rightarrow> Some g | None \<Rightarrow> after_opening content)
         else after_opening content)"

text \<open>\<open>Stylish.REGEXP_EXPRESSION.test(content)\<close>.\<close>

definition REGEXP_EXPRESSION_test :: "jsstring \<Rightarrow> bool" where
  "REGEXP_EXPRESSION_test content = (REGEXP_EXPRESSION_exec content \<noteq> None)"

text \<open>
  \<open>content.replace(Stylish.REGEXP_EXPRESSION, '$1')\<close>: the expression is anchored at both
  ends, so a match is the whole input and is replaced by group 1; without a match the
  input is returned as it is.
\<close>

definition replace_REGEXP_EXPRESSION :: "jsstring \<Rightarrow> jsstring" where
  "replace_REGEXP_EXPRESSION content =
     (case REGEXP_EXPRESSION_exec content of None \<Rightarrow> content | Some g \<Rightarrow> g)"

text \<open>
  \<open>.replace(Stylish.REGEXP_ESCAPED_QUOTES, '"')\<close> with
  \<open>REGEXP_ESCAPED_QUOTES = /\\['"]/g\<close>: one scan from the left; a backslash
  (U+005C) followed by a quote becomes one double quote and the scan goes on after
  the two characters.
\<close>

fun replace_REGEXP_ESCAPED_QUOTES :: "jsstring \<Rightarrow> jsstring" where
  "replace_REGEXP_ESCAPED_QUOTES (a # b # cs) =
     (if a = 92 \<and> is_quote b then 34 # replace_REGEXP_ESCAPED_QUOTES cs
      else a # replace_REGEXP_ESCAPED_QUOTES (b # cs))"
| "replace_REGEXP_ESCAPED_QUOTES cs = cs"

text \<open>\<open>_extractArgumentString\<close> (part 1 of the source, lines 88 to 100).\<close>

definition extractArgumentString :: "jsstring \<Rightarrow> jsstring" where
  "extractArgumentString content =
     (if length content > length ATTRIBUTE_NAME \<and> REGEXP_EXPRESSION_test content
      then trim (replace_REGEXP_ESCAPED_QUOTES (replace_REGEXP_EXPRESSION content))
      else [])"

text \<open>
  The pattern in the words of the specification, to compare the matcher with: an
  optional quote, \<open>stylish(\<close>, the inner text (no line terminator in it), \<open>)\<close> and an
  optional quote.
\<close>

definition optional_quotes :: "jsstring list" where
  "optional_quotes = [[], [39], [34]]"

definition is_expression :: "jsstring \<Rightarrow> jsstring \<Rightarrow> bool" where
  "is_expression content inner =
     (list_all (\<lambda>c. \<not> line_terminator c) inner \<and>
      (\<exists>q1 \<in> set optional_quotes. \<exists>q2 \<in> set optional_quotes.
         content = q1 @ js ''stylish('' @ inner @ js '')'' @ q2))"

text \<open>
  Two shapes of text the unescape step is sensitive to: a backslash followed by a quote
  (what the step replaces), and a backslash followed by such a pair.
\<close>

fun has_escaped_quote :: "jsstring \<Rightarrow> bool" where
  "has_escaped_quote (a # b # cs) = ((a = 92 \<and> is_quote b) \<or> has_escaped_quote (b # cs))"
| "has_escaped_quote cs = False"

fun has_escaped_escape :: "jsstring \<Rightarrow> bool" where
  "has_escaped_escape (a # b # c # cs) =
     ((a = 92 \<and> b = 92 \<and> is_quote c) \<or> has_escaped_escape (b # c # cs))"
| "has_escaped_escape cs = False"


section \<open>Decoded JSON values\<close>

text \<open>
  The values \<open>JSON.parse\<close> returns. An object is the list of its own properties in the
  order \<open>for ... in\<close> enumerates them; a number is kept as the text \<open>String\<close> gives for
  it, which is all the engine needs of one. \<open>None\<close> of type \<open>json option\<close> stands for
  \<open>undefined\<close>.
\<close>

datatype json = JNull | JBool bool | JNum jsstring | JStr jsstring | JArr "json list"
  | JObj "(jsstring \<times> json) list"

text \<open>The decimal name of an array index.\<close>

fun digits :: "nat \<Rightarrow> jsstring" where
  "digits n = (if n < 10 then [48 + n] else digits (n div 10) @ [48 + n mod 10])"

text \<open>
  The own enumerable properties of a decoded value, in enumeration order: the members of
  an object, the elements of an array under their indices. (A string has index
  properties too; the source never enumerates one, and looks up only the names
  \<open>on\<close> and \<open>data\<close> on what may be a string.)
\<close>

definition own_properties :: "json \<Rightarrow> (jsstring \<times> json) list" where
  "own_properties v = (case v of JObj kvs \<Rightarrow> kvs
     | JArr xs \<Rightarrow> zip (map digits [0..<length xs]) xs
     | _ \<Rightarrow> [])"

text \<open>\<open>v.k\<close> and \<open>v[k]\<close> for a property that is not inherited.\<close>

definition property :: "json \<Rightarrow> jsstring \<Rightarrow> json option" where
  "property v k = map_of (own_properties v) k"

fun typeof :: "json option \<Rightarrow> jsstring" where
  "typeof None = js ''undefined''"
| "typeof (Some JNull) = js ''object''"
| "typeof (Some (JBool b)) = js ''boolean''"
| "typeof (Some (JNum n)) = js ''number''"
| "typeof (Some (JStr s)) = js ''string''"
| "typeof (Some (JArr xs)) = js ''object''"
| "typeof (Some (JObj kvs)) = js ''object''"

definition ToBoolean :: "json option \<Rightarrow> bool" where
  "ToBoolean v = (case v of None \<Rightarrow> False | Some JNull \<Rightarrow> False | Some (JBool b) \<Rightarrow> b
     | Some (JNum n) \<Rightarrow> n \<noteq> js ''0'' | Some (JStr s) \<Rightarrow> s \<noteq> [] | Some _ \<Rightarrow> True)"


section \<open>The engine, the document and what a call can do\<close>

text \<open>
  A trigger is a function, known by its identity: the two built-in ones of part 1
  (\<open>Stylish.triggers.on\<close>, \<open>Stylish.triggers.data\<close>), the \<open>on\<close> trigger of the 0.1.1
  draft of part 4 (lines 1497 to 1541), which keeps track of the listener it installed
  last, and the functions a user registers. A user's function is opaque: a call of it is
  recorded, it returns normally and touches neither the engine nor the document.
\<close>

datatype trigger = TriggerOn | TriggerData | TriggerOnTracked | Custom nat

type_synonym node = nat

text \<open>A registration \<open>{ trigger, fn }\<close>; \<open>fn\<close> is the identity of the user's callback.\<close>

record handler =
  trigger :: trigger
  fn :: nat

record event =
  event_type :: jsstring
  target :: node

text \<open>The payloads \<open>{ data }\<close> and \<open>{ event }\<close>.\<close>

datatype payload = Data json | Event event

text \<open>
  The function object \<open>EVENT_HANDLER\<close> (\<open>_currHandler\<close> in part 4) that the \<open>on\<close> trigger
  creates: its identity, and what it captured: the trigger it reports as, the mode and
  the affected nodes.
\<close>

datatype closure = Closure nat trigger jsstring "node list"

text \<open>An entry of a node's event listener list: event name, callback, capture flag.\<close>

record listener =
  ltype :: json
  callback :: closure
  capture :: bool

text \<open>
  The objects of the CSS object model the walker meets. A style rule has a selector, a
  declaration block (of which only \<open>content\<close> is read) and possibly nested rules; a style
  sheet and a conditional group rule (a media query) have rules and no \<open>style\<close>. Rules
  that carry a declaration block without being a \<open>CSSStyleRule\<close> are not represented.
  An absent or empty \<open>cssRules\<close> is the empty list: the source treats both alike.
\<close>

datatype styleObject =
    CSSStyleSheet "styleObject list"
  | CSSStyleRule jsstring jsstring "styleObject list"
  | CSSGroupingRule "styleObject list"

datatype provider = Rule styleObject | Element node

text \<open>
  What the engine does to the outside, in the order it does it: a call of a user's
  callback, a call of a user's trigger, and an attribute of a node set to a value
  through the node's \<open>dataset\<close>.
\<close>

datatype call =
    HandlerCall nat "node list" payload
  | TriggerCall nat "node list" json provider
  | SetAttribute node jsstring jsstring

text \<open>
  What can be thrown: the host's \<open>TypeError\<close>, the \<open>SyntaxError\<close> of \<open>JSON.parse\<close>, a
  \<open>DOMException\<close> of the host, known by its name, and \<open>new Error(message)\<close>, of which
  the parts of the message are kept: the method in the bracket, \<open>selectorText ||
  localName\<close> of the provider, and the error caught.
\<close>

datatype exn = TypeError | SyntaxError | DOMException jsstring | Error jsstring jsstring exn

text \<open>A call either returns or throws; the state it leaves behind is kept in both cases.\<close>

datatype 's result = Returned 's | Threw exn 's

text \<open>The instance: \<open>this._triggers\<close> and \<open>this._handlers\<close>.\<close>

record Stylish =
  triggers :: "trigger list"
  handlers :: "handler list"

text \<open>
  The instance together with what its triggers change: each node's \<open>dataset\<close> (the
  string under each name, \<open>None\<close> where the node has no such entry) and listener list,
  the number of function objects created so far (the identity of the next one),
  \<open>_currHandler\<close> and \<open>_prevHandler\<close> of part 4, and the calls made so far.
\<close>

record world = Stylish +
  dataset :: "node \<Rightarrow> jsstring \<Rightarrow> jsstring option"
  listeners :: "node \<Rightarrow> listener list"
  closures :: nat
  currHandler :: "closure option"
  prevHandler :: "closure option"
  calls :: "call list"

text \<open>
  The host, as far as the engine asks it: \<open>document.querySelectorAll\<close> (its answer may
  depend on the attributes the \<open>data\<close> trigger writes), each element's \<open>localName\<close>,
  \<open>style.content\<close> and \<open>sheet\<close> (\<open>None\<close> is \<open>null\<close>), \<open>JSON.parse\<close> (\<open>None\<close>: it
  throws), whether a node has a \<open>dataset\<close> (the elements of HTML, SVG and MathML have
  one, an element of another namespace has none), and which attribute names the host
  accepts when an attribute is set (the names of the XML \<open>Name\<close> production in the HTML
  standard; hosts differ on it).
\<close>

record document =
  querySelectorAll :: "(node \<Rightarrow> jsstring \<Rightarrow> jsstring option) \<Rightarrow> jsstring \<Rightarrow> node list"
  localName :: "node \<Rightarrow> jsstring"
  style_content :: "node \<Rightarrow> jsstring"
  sheet :: "node \<Rightarrow> styleObject option"
  JSON_parse :: "jsstring \<Rightarrow> json option"
  has_dataset :: "node \<Rightarrow> bool"
  valid_attribute_name :: "jsstring \<Rightarrow> bool"

text \<open>\<open>Array.prototype.forEach\<close> with a callback that can throw.\<close>

fun forEach :: "'a list \<Rightarrow> ('a \<Rightarrow> 's \<Rightarrow> 's result) \<Rightarrow> 's \<Rightarrow> 's result" where
  "forEach [] f s = Returned s"
| "forEach (x # xs) f s =
     (case f x s of Returned s' \<Rightarrow> forEach xs f s' | Threw e s' \<Rightarrow> Threw e s')"


section \<open>The handler dispatcher\<close>

text \<open>\<open>_processHandler\<close> (part 1, lines 202 to 211).\<close>

definition processHandler :: "node list \<Rightarrow> payload \<Rightarrow> trigger \<Rightarrow> world \<Rightarrow> world" where
  "processHandler nodes payload trg w =
     fold (\<lambda>handler w. if trg = trigger handler
                        then w\<lparr>calls := calls w @ [HandlerCall (fn handler) nodes payload]\<rparr>
                        else w)
          (handlers w) w"


section \<open>Event listeners of the host\<close>

text \<open>
  The third argument of \<open>addEventListener\<close> is a boolean or an options object, of which
  \<open>capture\<close> is read here (\<open>once\<close>, \<open>passive\<close> and \<open>signal\<close> are left out).
\<close>

definition flatten :: "json option \<Rightarrow> bool" where
  "flatten options = (case options of
       Some (JObj kvs) \<Rightarrow> ToBoolean (map_of kvs (js ''capture''))
     | Some (JArr xs) \<Rightarrow> False
     | v \<Rightarrow> ToBoolean v)"

text \<open>The host adds a listener unless the same name, callback and flag are there already.\<close>

definition addEventListener :: "node \<Rightarrow> json \<Rightarrow> closure \<Rightarrow> json option \<Rightarrow> world \<Rightarrow> world" where
  "addEventListener node name cb options w =
     (let l = \<lparr>ltype = name, callback = cb, capture = flatten options\<rparr>
      in if l \<in> set (listeners w node) then w
         else w\<lparr>listeners := (listeners w)(node := listeners w node @ [l])\<rparr>)"

definition removeEventListener :: "node \<Rightarrow> json \<Rightarrow> closure \<Rightarrow> world \<Rightarrow> world" where
  "removeEventListener node name cb w =
     w\<lparr>listeners := (listeners w)(node :=
          filter (\<lambda>l. l \<noteq> \<lparr>ltype = name, callback = cb, capture = False\<rparr>) (listeners w node))\<rparr>"

text \<open>
  What the function object does when the host calls it with an event, from the body of
  \<open>EVENT_HANDLER\<close> (part 1, lines 352 to 359; the same in part 4, lines 1519 to 1526).
\<close>

fun fire :: "closure \<Rightarrow> event \<Rightarrow> world \<Rightarrow> world" where
  "fire (Closure k trg MODE nodes) ev w =
     processHandler (if MODE = js ''local'' then [target ev] else nodes) (Event ev) trg w"

text \<open>
  The host delivering an event at its target: the listeners of the target for the
  event's name are called in the order they were added. Propagation through ancestors
  is left out.
\<close>

definition dispatchEvent :: "event \<Rightarrow> world \<Rightarrow> world" where
  "dispatchEvent ev w =
     fold (\<lambda>l w. fire (callback l) ev w)
          (filter (\<lambda>l. ltype l = JStr (event_type ev)) (listeners w (target ev))) w"


section \<open>The built-in triggers\<close>

text \<open>
  \<open>triggerOn\<close> of part 1 (lines 344 to 369). The parameter pattern \<open>{ on }\<close> throws a
  \<open>TypeError\<close> when the decoded value is \<open>null\<close>, and so does \<open>on.events\<close> when \<open>on\<close> is.
  \<open>Array.isArray(on.events)\<close> is the case \<open>Some (JArr events)\<close>; \<open>mode_of\<close> is the
  conditional expression that gives \<open>MODE\<close>.
\<close>

definition MODES :: "jsstring list" where
  "MODES = [js ''local'', js ''global'']"

definition mode_of :: "json option \<Rightarrow> jsstring" where
  "mode_of m = (case m of Some (JStr s) \<Rightarrow> if s \<in> set MODES then s else js ''local''
                 | _ \<Rightarrow> js ''local'')"

definition triggerOn :: "node list \<Rightarrow> json \<Rightarrow> provider \<Rightarrow> world \<Rightarrow> world result" where
  "triggerOn nodes args styleProvider w =
     (case args of JNull \<Rightarrow> Threw TypeError w
      | _ \<Rightarrow>
        let on = property args (js ''on'') in
        if length nodes > 0 \<and> typeof on = js ''object'' then
          (case on of
             Some JNull \<Rightarrow> Threw TypeError w
           | Some on' \<Rightarrow>
               (case property on' (js ''events'') of
                  Some (JArr events) \<Rightarrow>
                    let MODE = mode_of (property on' (js ''mode''));
                        EVENT_HANDLER = Closure (closures w) TriggerOn MODE nodes;
                        w1 = w\<lparr>closures := Suc (closures w)\<rparr>
                    in Returned (fold (\<lambda>ev w. fold (\<lambda>node w.
                           addEventListener node ev EVENT_HANDLER (property on' (js ''capture'')) w)
                           nodes w) events w1)
                | _ \<Rightarrow> Returned w)
           | None \<Rightarrow> Returned w)
        else Returned w)"

text \<open>
  \<open>triggerOn\<close> of part 4 (lines 1497 to 1541): \<open>_prevHandler\<close> and \<open>_currHandler\<close> are
  variables of the enclosing function, shared by all calls.
\<close>

definition triggerOn_tracked :: "node list \<Rightarrow> json \<Rightarrow> provider \<Rightarrow> world \<Rightarrow> world result" where
  "triggerOn_tracked nodes args styleProvider w =
     (if length nodes = 0 then Returned w
      else case args of JNull \<Rightarrow> Threw TypeError w
      | _ \<Rightarrow>
        let on = property args (js ''on'') in
        if typeof on = js ''object'' then
          (case on of
             Some JNull \<Rightarrow> Threw TypeError w
           | Some on' \<Rightarrow>
               (case property on' (js ''events'') of
                  Some (JArr events) \<Rightarrow>
                    let mode = mode_of (property on' (js ''mode''));
                        prev = currHandler w;
                        curr = Closure (closures w) TriggerOnTracked mode nodes;
                        w1 = w\<lparr>closures := Suc (closures w),
                               prevHandler := prev, currHandler := Some curr\<rparr>
                    in Returned (fold (\<lambda>ev w. fold (\<lambda>node w.
                           addEventListener node ev curr None
                             (case prev of None \<Rightarrow> w | Some p \<Rightarrow> removeEventListener node ev p w))
                           nodes w) events w1)
                | _ \<Rightarrow> Returned w)
           | None \<Rightarrow> Returned w)
        else Returned w)"

text \<open>
  \<open>ToString\<close> of a decoded value, which the host applies to a value assigned to an
  entry of a \<open>dataset\<close>. An array gives its elements joined by commas, \<open>null\<close> among
  them giving the empty string. An object gives \<open>[object Object]\<close> through the
  inherited \<open>toString\<close>; a member named \<open>toString\<close> hides that function, is itself no
  function, and the inherited \<open>valueOf\<close> returns the object, so that the conversion
  throws a \<open>TypeError\<close>.
\<close>

fun ToString :: "json \<Rightarrow> exn + jsstring" and Array_join :: "json list \<Rightarrow> exn + jsstring" where
  "ToString JNull = Inr (js ''null'')"
| "ToString (JBool b) = Inr (if b then js ''true'' else js ''false'')"
| "ToString (JNum s) = Inr s"
| "ToString (JStr s) = Inr s"
| "ToString (JArr xs) = Array_join xs"
| "ToString (JObj kvs) =
     (if map_of kvs (js ''toString'') = None then Inr (js ''[object Object]'') else Inl TypeError)"
| "Array_join [] = Inr []"
| "Array_join (x # xs) =
     (case (if x = JNull then Inr [] else ToString x) of
        Inl e \<Rightarrow> Inl e
      | Inr s \<Rightarrow> if xs = [] then Inr s
                 else (case Array_join xs of Inl e \<Rightarrow> Inl e | Inr r \<Rightarrow> Inr (s @ 44 # r)))"

text \<open>The same of what a member access returned, which may be \<open>undefined\<close>.\<close>

definition ToString_value :: "json option \<Rightarrow> exn + jsstring" where
  "ToString_value v = (case v of None \<Rightarrow> Inr (js ''undefined'') | Some x \<Rightarrow> ToString x)"

text \<open>
  The setter of a \<open>dataset\<close> entry (the named property setter of \<open>DOMStringMap\<close> in the
  HTML standard). It refuses a name in which a hyphen is followed by a lower-case ASCII
  letter. Otherwise the attribute it sets is named \<open>data-\<close> followed by the name, in
  which every ASCII capital is replaced by a hyphen and the lower-case letter.
\<close>

definition is_capital :: "nat \<Rightarrow> bool" where
  "is_capital c = (65 \<le> c \<and> c \<le> 90)"

fun hyphen_lower :: "jsstring \<Rightarrow> bool" where
  "hyphen_lower (a # b # cs) = ((a = 45 \<and> 97 \<le> b \<and> b \<le> 122) \<or> hyphen_lower (b # cs))"
| "hyphen_lower cs = False"

fun hyphenate :: "jsstring \<Rightarrow> jsstring" where
  "hyphenate [] = []"
| "hyphenate (c # cs) =
     (if is_capital c then 45 # (c + 32) # hyphenate cs else c # hyphenate cs)"

definition data_attribute :: "jsstring \<Rightarrow> jsstring" where
  "data_attribute name = js ''data-'' @ hyphenate name"

text \<open>What a successful assignment \<open>node.dataset[name] = value\<close> changes.\<close>

definition set_data :: "node \<Rightarrow> jsstring \<Rightarrow> jsstring \<Rightarrow> world \<Rightarrow> world" where
  "set_data node name s w =
     w\<lparr>dataset := (dataset w)(node := (dataset w node)(name := Some s)),
       calls := calls w @ [SetAttribute node (data_attribute name) s]\<rparr>"

text \<open>
  \<open>node.dataset[name] = value\<close>. A node without a \<open>dataset\<close> makes the assignment throw a
  \<open>TypeError\<close>. Else the host converts the value to a string, which can throw, and runs
  the setter: a refused name throws a \<open>DOMException\<close> named \<open>SyntaxError\<close>, an attribute
  name the host does not accept one named \<open>InvalidCharacterError\<close>.
\<close>

definition dataset_set ::
  "document \<Rightarrow> node \<Rightarrow> jsstring \<Rightarrow> json option \<Rightarrow> world \<Rightarrow> world result" where
  "dataset_set doc node name v w =
     (if \<not> has_dataset doc node then Threw TypeError w
      else case ToString_value v of
        Inl e \<Rightarrow> Threw e w
      | Inr s \<Rightarrow>
          if hyphen_lower name then Threw (DOMException (js ''SyntaxError'')) w
          else if \<not> valid_attribute_name doc (data_attribute name)
          then Threw (DOMException (js ''InvalidCharacterError'')) w
          else Returned (set_data node name s w))"

text \<open>
  \<open>triggerData\<close> (part 1, lines 382 to 398). The body of the \<open>for ... in\<close> loop first
  evaluates \<open>data.hasOwnProperty(name)\<close>: a member of \<open>data\<close> of that name hides the
  inherited function, and calling a decoded value throws a \<open>TypeError\<close>. Else the
  inherited function answers whether \<open>name\<close> is an own property. Then \<open>nodes.forEach\<close>
  assigns \<open>data[name]\<close> to the entry of each node's dataset, and after it
  \<open>_processHandler\<close> is called; an assignment that throws ends the loop and the call.
\<close>

definition triggerData_body ::
  "document \<Rightarrow> node list \<Rightarrow> json \<Rightarrow> jsstring \<Rightarrow> world \<Rightarrow> world result" where
  "triggerData_body doc nodes data name w =
     (case property data (js ''hasOwnProperty'') of
        Some f \<Rightarrow> Threw TypeError w
      | None \<Rightarrow>
          if name \<in> set (map fst (own_properties data))
          then (case forEach nodes (\<lambda>node. dataset_set doc node name (property data name)) w of
                  Returned w' \<Rightarrow> Returned (processHandler nodes (Data data) TriggerData w')
                | Threw e w' \<Rightarrow> Threw e w')
          else Returned w)"

definition triggerData ::
  "document \<Rightarrow> node list \<Rightarrow> json \<Rightarrow> provider \<Rightarrow> world \<Rightarrow> world result" where
  "triggerData doc nodes args styleProvider w =
     (case args of JNull \<Rightarrow> Threw TypeError w
      | _ \<Rightarrow>
        let data = property args (js ''data'') in
        if length nodes > 0 \<and> typeof data = js ''object'' then
          (case data of
             Some d \<Rightarrow> forEach (map fst (own_properties d)) (triggerData_body doc nodes d) w
           | None \<Rightarrow> Returned w)
        else Returned w)"

text \<open>
  The inputs on which every assignment of the \<open>data\<close> trigger goes through: the name is
  one the setter takes, the attribute name one the host accepts, and the value one that
  converts to a string, the string being \<open>string_of\<close> the value.
\<close>

definition settable :: "document \<Rightarrow> json \<Rightarrow> jsstring \<Rightarrow> bool" where
  "settable doc data name =
     ((case ToString_value (property data name) of Inl e \<Rightarrow> False | Inr s \<Rightarrow> True)
      \<and> \<not> hyphen_lower name \<and> valid_attribute_name doc (data_attribute name))"

definition string_of :: "json option \<Rightarrow> jsstring" where
  "string_of v = (case ToString_value v of Inl e \<Rightarrow> [] | Inr s \<Rightarrow> s)"


section \<open>The trigger dispatcher and the style provider processor\<close>

text \<open>\<open>trigger.call(this, nodes, args, styleProvider)\<close>.\<close>

definition call_trigger ::
  "document \<Rightarrow> trigger \<Rightarrow> node list \<Rightarrow> json \<Rightarrow> provider \<Rightarrow> world \<Rightarrow> world result" where
  "call_trigger doc trg nodes args styleProvider w =
     (case trg of
        TriggerOn \<Rightarrow> triggerOn nodes args styleProvider w
      | TriggerData \<Rightarrow> triggerData doc nodes args styleProvider w
      | TriggerOnTracked \<Rightarrow> triggerOn_tracked nodes args styleProvider w
      | Custom n \<Rightarrow> Returned (w\<lparr>calls := calls w @ [TriggerCall n nodes args styleProvider]\<rparr>))"

text \<open>\<open>styleProvider.selectorText || styleProvider.localName\<close>, as it is put into a message.\<close>

definition label :: "document \<Rightarrow> provider \<Rightarrow> jsstring" where
  "label doc styleProvider = (case styleProvider of
       Element n \<Rightarrow> localName doc n
     | Rule (CSSStyleRule selectorText content rules) \<Rightarrow>
         if selectorText \<noteq> [] then selectorText else js ''undefined''
     | Rule r \<Rightarrow> js ''undefined'')"

text \<open>\<open>_processTrigger\<close> (part 1, lines 175 to 193).\<close>

definition processTrigger ::
  "document \<Rightarrow> node list \<Rightarrow> json \<Rightarrow> provider \<Rightarrow> world \<Rightarrow> world result" where
  "processTrigger doc nodes args styleProvider w =
     forEach (triggers w)
       (\<lambda>trg w. case call_trigger doc trg nodes args styleProvider w of
            Returned w' \<Rightarrow> Returned w'
          | Threw e w' \<Rightarrow> Threw (Error (js ''_processTrigger'') (label doc styleProvider) e) w')
       w"

text \<open>
  \<open>styleProvider.style.content\<close>: \<open>None\<close> when the object has no \<open>style\<close>, so that reading
  \<open>content\<close> of it throws.
\<close>

definition style_content_of :: "document \<Rightarrow> provider \<Rightarrow> jsstring option" where
  "style_content_of doc styleProvider = (case styleProvider of
       Element n \<Rightarrow> Some (style_content doc n)
     | Rule (CSSStyleRule selectorText content rules) \<Rightarrow> Some content
     | Rule r \<Rightarrow> None)"

text \<open>
  The affected nodes: what the selector of a \<open>CSSStyleRule\<close> matches in the document, else
  the provider itself. (The last case is never reached: an object that is neither has no
  \<open>style\<close>.)
\<close>

definition affected_nodes :: "document \<Rightarrow> provider \<Rightarrow> world \<Rightarrow> node list" where
  "affected_nodes doc styleProvider w = (case styleProvider of
       Rule (CSSStyleRule selectorText content rules) \<Rightarrow>
         querySelectorAll doc (dataset w) selectorText
     | Element n \<Rightarrow> [n]
     | Rule r \<Rightarrow> [])"

text \<open>\<open>_processStyleProvider\<close> (part 1, lines 129 to 166).\<close>

definition processStyleProvider :: "document \<Rightarrow> provider \<Rightarrow> world \<Rightarrow> world result" where
  "processStyleProvider doc styleProvider w =
     (case style_content_of doc styleProvider of
        None \<Rightarrow> Threw TypeError w
      | Some content \<Rightarrow>
          let arg = extractArgumentString content in
          if length arg > 0 then
            (case JSON_parse doc arg of
               None \<Rightarrow> Threw (Error (js ''_processStyleProvider'') (label doc styleProvider)
                                SyntaxError) w
             | Some args \<Rightarrow>
                 processTrigger doc (affected_nodes doc styleProvider w) args styleProvider w)
          else Returned w)"


section \<open>The style tree walker and \<open>process\<close>\<close>

text \<open>
  \<open>_processStyleObject\<close> (part 1, lines 107 to 122). The method it calls on every rule,
  \<open>this._processStyleProvider\<close>, is the parameter \<open>P\<close>, so that what the walker passes on
  can be stated for any processor. \<open>processRules\<close> is the \<open>for\<close> loop over \<open>rules\<close>.
\<close>

fun processStyleObject ::
    "(styleObject \<Rightarrow> 's \<Rightarrow> 's result) \<Rightarrow> styleObject \<Rightarrow> 's \<Rightarrow> 's result"
  and processRules ::
    "(styleObject \<Rightarrow> 's \<Rightarrow> 's result) \<Rightarrow> styleObject list \<Rightarrow> 's \<Rightarrow> 's result" where
  "processStyleObject P (CSSStyleSheet rules) s = processRules P rules s"
| "processStyleObject P (CSSStyleRule selectorText content rules) s = processRules P rules s"
| "processStyleObject P (CSSGroupingRule rules) s = processRules P rules s"
| "processRules P [] s = Returned s"
| "processRules P (rule # rules) s =
     (case processStyleObject P rule s of
        Threw e s' \<Rightarrow> Threw e s'
      | Returned s' \<Rightarrow>
          (case P rule s' of
             Threw e s'' \<Rightarrow> Threw e s''
           | Returned s'' \<Rightarrow> processRules P rules s''))"

text \<open>
  The rules below a style object, each after the rules nested in it: the order in which
  the specification's "all nested descendants" are met.
\<close>

fun descendants :: "styleObject \<Rightarrow> styleObject list"
  and descendants_list :: "styleObject list \<Rightarrow> styleObject list" where
  "descendants (CSSStyleSheet rules) = descendants_list rules"
| "descendants (CSSStyleRule selectorText content rules) = descendants_list rules"
| "descendants (CSSGroupingRule rules) = descendants_list rules"
| "descendants_list [] = []"
| "descendants_list (rule # rules) = descendants rule @ [rule] @ descendants_list rules"


text \<open>\<open>Stylish.QUERY_SELECTOR\<close> and \<open>process\<close> (part 1, lines 217 to 237).\<close>

definition QUERY_SELECTOR :: jsstring where
  "QUERY_SELECTOR = js ''*[stylish]''"

definition process_node :: "document \<Rightarrow> node \<Rightarrow> world \<Rightarrow> world result" where
  "process_node doc node w =
     (if localName doc node = js ''link'' \<or> localName doc node = js ''style''
      then (case sheet doc node of
              None \<Rightarrow> Threw TypeError w
            | Some styleSheet \<Rightarrow>
                processStyleObject (\<lambda>rule. processStyleProvider doc (Rule rule)) styleSheet w)
      else processStyleProvider doc (Element node) w)"

definition process :: "document \<Rightarrow> world \<Rightarrow> world result" where
  "process doc w =
     forEach (querySelectorAll doc (dataset w) QUERY_SELECTOR) (process_node doc) w"


text \<open>
  The style providers of a pass in the order \<open>process\<close> meets them: for a \<open>link\<close> or
  \<open>style\<close> element the rules below its sheet as the walker meets them, for any other
  element the element itself. \<open>sheets_loaded\<close> says that every \<open>link\<close> and \<open>style\<close> element
  among the nodes has a sheet.
\<close>

definition providers_of_node :: "document \<Rightarrow> node \<Rightarrow> provider list" where
  "providers_of_node doc node =
     (if localName doc node = js ''link'' \<or> localName doc node = js ''style''
      then (case sheet doc node of None \<Rightarrow> [] | Some styleSheet \<Rightarrow> map Rule (descendants styleSheet))
      else [Element node])"

definition providers :: "document \<Rightarrow> node list \<Rightarrow> provider list" where
  "providers doc nodes = concat (map (providers_of_node doc) nodes)"

definition sheets_loaded :: "document \<Rightarrow> node list \<Rightarrow> bool" where
  "sheets_loaded doc nodes =
     list_all (\<lambda>node. localName doc node = js ''link'' \<or> localName doc node = js ''style''
                 \<longrightarrow> sheet doc node \<noteq> None) nodes"


section \<open>Registration\<close>

text \<open>\<open>Array.prototype.indexOf\<close> and \<open>splice(index, 1)\<close>.\<close>

fun indexOf :: "'a list \<Rightarrow> 'a \<Rightarrow> int" where
  "indexOf [] x = - 1"
| "indexOf (y # ys) x = (if y = x then 0 else if indexOf ys x = - 1 then - 1 else indexOf ys x + 1)"

definition splice1 :: "nat \<Rightarrow> 'a list \<Rightarrow> 'a list" where
  "splice1 index xs = take index xs @ drop (Suc index) xs"

text \<open>\<open>addTrigger\<close>, \<open>removeTrigger\<close>, \<open>addHandler\<close> (part 1, lines 244 to 280).\<close>

definition addTrigger :: "trigger \<Rightarrow> 'a Stylish_scheme \<Rightarrow> 'a Stylish_scheme" where
  "addTrigger trg this = this\<lparr>triggers := triggers this @ [trg]\<rparr>"

definition removeTrigger :: "trigger \<Rightarrow> 'a Stylish_scheme \<Rightarrow> 'a Stylish_scheme" where
  "removeTrigger trg this =
     (let index = indexOf (triggers this) trg in
      if index > - 1
      then this\<lparr>triggers := splice1 (nat index) (triggers this),
                handlers := filter (\<lambda>handler. trigger handler = trg) (handlers this)\<rparr>
      else this)"

definition addHandler :: "trigger \<Rightarrow> nat \<Rightarrow> 'a Stylish_scheme \<Rightarrow> 'a Stylish_scheme" where
  "addHandler trg f this = this\<lparr>handlers := handlers this @ [\<lparr>trigger = trg, fn = f\<rparr>]\<rparr>"

text \<open>
  \<open>removeHandler\<close> (part 1, lines 288 to 301): the \<open>for\<close> loop reads \<open>this._handlers.length\<close>
  anew in every round and always goes on with \<open>index + 1\<close>, also after a \<open>splice\<close>.
\<close>

function removeHandler_loop :: "nat \<Rightarrow> trigger \<Rightarrow> nat \<Rightarrow> handler list \<Rightarrow> handler list" where
  "removeHandler_loop index trg f hs =
     (if index < length hs
      then (if trigger (hs ! index) = trg \<and> fn (hs ! index) = f
            then removeHandler_loop (Suc index) trg f (splice1 index hs)
            else removeHandler_loop (Suc index) trg f hs)
      else hs)"
  by pat_completeness auto
termination
  by (relation "measure (\<lambda>(index, trg, f, hs). length hs - index)") (auto simp: splice1_def)

definition removeHandler :: "trigger \<Rightarrow> nat \<Rightarrow> 'a Stylish_scheme \<Rightarrow> 'a Stylish_scheme" where
  "removeHandler trg f this = this\<lparr>handlers := removeHandler_loop 0 trg f (handlers this)\<rparr>"

text \<open>\<open>new Stylish()\<close>, with a document nobody has touched yet.\<close>

definition Stylish :: world where
  "Stylish = \<lparr>triggers = [], handlers = [], dataset = (\<lambda>node name. None),
     listeners = (\<lambda>node. []), closures = 0, currHandler = None, prevHandler = None,
     calls = []\<rparr>"

section \<open>Example inputs\<close>

text \<open>
  Concrete inputs for the closed statements below. \<open>example_parse\<close> is the decoder on
  the argument texts of the examples: it answers what \<open>JSON.parse\<close> answers on these
  texts, and fails on any other text, as \<open>JSON.parse\<close> does on \<open>{bad}\<close>. In
  \<open>example_document nodes contents\<close> the elements \<open>nodes\<close> carry the marker attribute, all
  of them are \<open>div\<close> elements, and \<open>contents\<close> gives the \<open>content\<close> of each one's inline
  style.
\<close>

definition example_parse :: "jsstring \<Rightarrow> json option" where
  "example_parse text =
     (if text = js ''{\"on\":{\"events\":[\"click\"]}}''
      then Some (JObj [(js ''on'', JObj [(js ''events'', JArr [JStr (js ''click'')])])])
      else if text = js ''{\"data\":{\"x\":\"1\"}}''
      then Some (JObj [(js ''data'', JObj [(js ''x'', JStr (js ''1''))])])
      else if text = js ''null'' then Some JNull
      else None)"

text \<open>
  The attribute names the example host accepts: those made of ASCII letters, digits,
  hyphens, underscores, full stops and colons that begin with a letter.
\<close>

definition is_letter :: "nat \<Rightarrow> bool" where
  "is_letter c = ((65 \<le> c \<and> c \<le> 90) \<or> (97 \<le> c \<and> c \<le> 122))"

definition example_valid_name :: "jsstring \<Rightarrow> bool" where
  "example_valid_name name = (case name of [] \<Rightarrow> False
     | c # cs \<Rightarrow> is_letter c
         \<and> list_all (\<lambda>c. is_letter c \<or> (48 \<le> c \<and> c \<le> 57) \<or> c \<in> set [45, 95, 46, 58]) cs)"

definition example_document :: "node list \<Rightarrow> (node \<Rightarrow> jsstring) \<Rightarrow> document" where
  "example_document nodes contents =
     \<lparr>querySelectorAll = (\<lambda>attributes selector. if selector = QUERY_SELECTOR then nodes else []),
      localName = (\<lambda>node. js ''div''),
      style_content = contents,
      sheet = (\<lambda>node. None),
      JSON_parse = example_parse,
      has_dataset = (\<lambda>node. True),
      valid_attribute_name = example_valid_name\<rparr>"

definition on_click :: jsstring where
  "on_click = js ''stylish({\"on\":{\"events\":[\"click\"]}})''"

definition data_x :: jsstring where
  "data_x = js ''stylish({\"data\":{\"x\":\"1\"}})''"

definition bad :: jsstring where
  "bad = js ''stylish({bad})''"

definition click :: "node \<Rightarrow> event" where
  "click node = \<lparr>event_type = js ''click'', target = node\<rparr>"


text \<open>
  A page with a \<open>style\<close> element (node 0) whose sheet has a well-formed rule for the
  \<open>div\<close> elements 1 and 2 and a malformed rule, and a \<open>div\<close> element (node 3) with an
  expression in its inline style.
\<close>

definition example_page :: document where
  "example_page =
     \<lparr>querySelectorAll = (\<lambda>attributes selector.
         if selector = QUERY_SELECTOR then [0, 3] else if selector = js ''div'' then [1, 2] else []),
      localName = (\<lambda>node. if node = 0 then js ''style'' else js ''div''),
      style_content = (\<lambda>node. if node = 3 then data_x else []),
      sheet = (\<lambda>node. if node = 0
         then Some (CSSStyleSheet [CSSStyleRule (js ''div'') data_x [], CSSStyleRule (js ''p'') bad []])
         else None),
      JSON_parse = example_parse,
      has_dataset = (\<lambda>node. True),
      valid_attribute_name = example_valid_name\<rparr>"

definition engine_on :: world where
  "engine_on = addHandler TriggerOn 1 (addTrigger TriggerOn Stylish)"

definition engine_data :: world where
  "engine_data = addHandler TriggerData 1 (addTrigger TriggerData Stylish)"

definition engine_tracked :: world where
  "engine_tracked = addHandler TriggerOnTracked 1 (addTrigger TriggerOnTracked Stylish)"

definition engine_both :: world where
  "engine_both = addHandler TriggerOn 3 (addHandler TriggerData 2 (addHandler TriggerOn 1
      (addTrigger TriggerData (addTrigger TriggerOn Stylish))))"

section \<open>Facts about strings and the extractor\<close>

subsection \<open>The unescape step\<close>

lemma unescape_fix: "replace_REGEXP_ESCAPED_QUOTES s = s \<longleftrightarrow> \<not> has_escaped_quote s"
  by (induction s rule: replace_REGEXP_ESCAPED_QUOTES.induct) (auto simp: is_quote_def)

lemma heq_cons: "has_escaped_quote (a # s) =
    ((a = 92 \<and> (case s of [] \<Rightarrow> False | b # _ \<Rightarrow> is_quote b)) \<or> has_escaped_quote s)"
  by (cases s) auto

lemma hee_skip: "b \<noteq> 92 \<Longrightarrow> has_escaped_escape (a # b # cs) = has_escaped_escape cs"
  by (cases cs rule: has_escaped_quote.cases) auto

lemma hee_cons2: "has_escaped_escape (a # b # cs) =
    ((a = 92 \<and> b = 92 \<and> (case cs of [] \<Rightarrow> False | c # _ \<Rightarrow> is_quote c)) \<or> has_escaped_escape (b # cs))"
  by (cases cs) auto

lemma unescape_head: "(case replace_REGEXP_ESCAPED_QUOTES s of [] \<Rightarrow> False | b # _ \<Rightarrow> is_quote b) =
   (case s of [] \<Rightarrow> False | a # r \<Rightarrow> is_quote a \<or> (a = 92 \<and> (case r of [] \<Rightarrow> False | b # _ \<Rightarrow> is_quote b)))"
  by (cases s rule: replace_REGEXP_ESCAPED_QUOTES.cases) (auto simp: is_quote_def)

lemma unescape_out: "has_escaped_quote (replace_REGEXP_ESCAPED_QUOTES s) \<longleftrightarrow> has_escaped_escape s"
proof (induction s rule: replace_REGEXP_ESCAPED_QUOTES.induct)
  case (1 a b cs)
  show ?case
  proof (cases "a = 92 \<and> is_quote b")
    case True
    then have "has_escaped_quote (replace_REGEXP_ESCAPED_QUOTES (a # b # cs))
        = has_escaped_quote (34 # replace_REGEXP_ESCAPED_QUOTES cs)" by simp
    also have "\<dots> = has_escaped_quote (replace_REGEXP_ESCAPED_QUOTES cs)"
      by (subst heq_cons) simp
    also have "\<dots> = has_escaped_escape cs" using 1(1) True by simp
    also have "\<dots> = has_escaped_escape (a # b # cs)"
      using True by (subst hee_skip) (auto simp add: is_quote_def)
    finally show ?thesis .
  next
    case False
    then have "has_escaped_quote (replace_REGEXP_ESCAPED_QUOTES (a # b # cs))
        = has_escaped_quote (a # replace_REGEXP_ESCAPED_QUOTES (b # cs))" by auto
    also have "\<dots> = ((a = 92 \<and> (case replace_REGEXP_ESCAPED_QUOTES (b # cs) of [] \<Rightarrow> False | x # _ \<Rightarrow> is_quote x))
        \<or> has_escaped_quote (replace_REGEXP_ESCAPED_QUOTES (b # cs)))"
      by (subst heq_cons) (rule refl)
    also have "\<dots> = ((a = 92 \<and> (case replace_REGEXP_ESCAPED_QUOTES (b # cs) of [] \<Rightarrow> False | x # _ \<Rightarrow> is_quote x))
        \<or> has_escaped_escape (b # cs))"
      using 1(2) False by blast
    also have "\<dots> = ((a = 92 \<and> (is_quote b \<or> (b = 92 \<and> (case cs of [] \<Rightarrow> False | x # _ \<Rightarrow> is_quote x))))
        \<or> has_escaped_escape (b # cs))"
      unfolding unescape_head by simp
    also have "\<dots> = has_escaped_escape (a # b # cs)"
      using False by (subst hee_cons2) auto
    finally show ?thesis .
  qed
qed simp_all

subsection \<open>The matcher accepts the pattern and nothing else\<close>

lemma strip_prefix_iff: "strip_prefix p s = Some r \<longleftrightarrow> s = p @ r"
  by (induction p s rule: strip_prefix.induct) auto

lemma strip_prefix_None: "strip_prefix p s = None \<longleftrightarrow> (\<forall>r. s \<noteq> p @ r)"
  using strip_prefix_iff[of p s] by (cases "strip_prefix p s") auto

lemma closing_iff: "closing s \<longleftrightarrow> (\<exists>q \<in> set optional_quotes. s = 41 # q)"
  by (auto simp: closing_def optional_quotes_def is_quote_def split: list.splits)

lemma closing_length: "closing s \<Longrightarrow> length s = 1 \<or> (length s = 2 \<and> is_quote (s ! 1))"
  by (auto simp: closing_def split: list.splits)

lemma closing_hd: "closing s \<Longrightarrow> s ! 0 = 41"
  by (auto simp: closing_def split: list.splits)

lemma closing_unique_le:
  assumes "closing (drop i r)" "closing (drop j r)" "i \<le> j"
  shows "i = j"
proof (rule ccontr)
  assume "i \<noteq> j"
  with assms(3) have lt: "i < j" by simp
  from closing_length[OF assms(1)] closing_length[OF assms(2)] lt
  have j: "j = Suc i" and l: "length r = i + 2" and q: "is_quote (drop i r ! 1)" by auto
  have "drop j r ! 0 = 41" using closing_hd[OF assms(2)] .
  moreover have "drop j r ! 0 = drop i r ! 1" using j l by simp
  ultimately show False using q by (simp add: is_quote_def)
qed

lemma closing_unique: "closing (drop i r) \<Longrightarrow> closing (drop j r) \<Longrightarrow> i = j"
  using closing_unique_le[of i r j] closing_unique_le[of j r i] by (cases "i \<le> j") auto

lemma group_iff: "group k r = Some g \<longleftrightarrow> (\<exists>j \<le> k. closing (drop j r) \<and> g = take j r)"
proof (induction k)
  case 0
  then show ?case by auto
next
  case (Suc k)
  show ?case
  proof (cases "closing (drop (Suc k) r)")
    case True
    have "(\<exists>j \<le> Suc k. closing (drop j r) \<and> g = take j r) \<longleftrightarrow> g = take (Suc k) r"
    proof
      assume "\<exists>j \<le> Suc k. closing (drop j r) \<and> g = take j r"
      then obtain j where j: "closing (drop j r)" "g = take j r" by blast
      from closing_unique[OF j(1) True] j(2) show "g = take (Suc k) r" by simp
    next
      assume "g = take (Suc k) r"
      with True show "\<exists>j \<le> Suc k. closing (drop j r) \<and> g = take j r" by blast
    qed
    moreover have "group (Suc k) r = Some (take (Suc k) r)" using True by simp
    ultimately show ?thesis by auto
  next
    case False
    have "(\<exists>j \<le> Suc k. closing (drop j r) \<and> g = take j r)
        \<longleftrightarrow> (\<exists>j \<le> k. closing (drop j r) \<and> g = take j r)"
    proof
      assume "\<exists>j \<le> Suc k. closing (drop j r) \<and> g = take j r"
      then obtain j where j: "j \<le> Suc k" "closing (drop j r)" "g = take j r" by blast
      from j(2) False have "j \<noteq> Suc k" by blast
      with j(1) have "j \<le> k" by simp
      with j(2,3) show "\<exists>j \<le> k. closing (drop j r) \<and> g = take j r" by blast
    next
      assume "\<exists>j \<le> k. closing (drop j r) \<and> g = take j r"
      then obtain j where j: "j \<le> k" "closing (drop j r)" "g = take j r" by blast
      from j(1) have "j \<le> Suc k" by simp
      with j(2,3) show "\<exists>j \<le> Suc k. closing (drop j r) \<and> g = take j r" by blast
    qed
    moreover have "group (Suc k) r = group k r" using False by simp
    ultimately show ?thesis using Suc by simp
  qed
qed

lemma star_iff:
  "(\<exists>j \<le> length (takeWhile P r). closing (drop j r) \<and> g = take j r)
     \<longleftrightarrow> (list_all P g \<and> (\<exists>rest. r = g @ rest \<and> closing rest))"
proof
  assume "\<exists>j \<le> length (takeWhile P r). closing (drop j r) \<and> g = take j r"
  then obtain j where j: "j \<le> length (takeWhile P r)" "closing (drop j r)" "g = take j r" by blast
  have "take j r = take j (takeWhile P r @ dropWhile P r)" by simp
  also have "\<dots> = take j (takeWhile P r)" using j(1) by (simp del: takeWhile_dropWhile_id)
  finally have "set g \<subseteq> set (takeWhile P r)" using j(3) by (metis set_take_subset)
  then have "list_all P g" by (auto simp: list_all_iff dest: set_takeWhileD)
  moreover have "r = g @ drop j r" using j(3) by simp
  ultimately show "list_all P g \<and> (\<exists>rest. r = g @ rest \<and> closing rest)" using j(2) by blast
next
  assume "list_all P g \<and> (\<exists>rest. r = g @ rest \<and> closing rest)"
  then obtain rest where a: "list_all P g" "r = g @ rest" "closing rest" by blast
  have "takeWhile P r = g @ takeWhile P rest" using a(1,2) by (simp add: list_all_iff)
  then have "length g \<le> length (takeWhile P r)" by simp
  moreover have "closing (drop (length g) r)" "g = take (length g) r" using a by simp_all
  ultimately show "\<exists>j \<le> length (takeWhile P r). closing (drop j r) \<and> g = take j r" by blast
qed

lemma after_opening_iff:
  "after_opening s = Some g \<longleftrightarrow>
     (list_all (\<lambda>c. \<not> line_terminator c) g \<and> (\<exists>q \<in> set optional_quotes. s = ATTRIBUTE_NAME @ 40 # g @ 41 # q))"
proof (cases "strip_prefix (ATTRIBUTE_NAME @ [40]) s")
  case None
  then have "after_opening s = None" by (simp add: after_opening_def)
  moreover have "\<forall>r. s \<noteq> (ATTRIBUTE_NAME @ [40]) @ r" using None strip_prefix_None by blast
  then have "\<forall>q. s \<noteq> ATTRIBUTE_NAME @ 40 # g @ 41 # q" by simp
  ultimately show ?thesis by simp
next
  case (Some r)
  then have s: "s = ATTRIBUTE_NAME @ 40 # r" by (simp add: strip_prefix_iff)
  have "after_opening s = group (length (takeWhile (\<lambda>c. \<not> line_terminator c) r)) r"
    using Some by (simp add: after_opening_def)
  then have "after_opening s = Some g \<longleftrightarrow>
      (list_all (\<lambda>c. \<not> line_terminator c) g \<and> (\<exists>rest. r = g @ rest \<and> closing rest))"
    by (simp only: group_iff star_iff)
  also have "\<dots> \<longleftrightarrow> (list_all (\<lambda>c. \<not> line_terminator c) g \<and> (\<exists>q \<in> set optional_quotes. r = g @ 41 # q))"
    by (auto simp: closing_iff)
  also have "\<dots> \<longleftrightarrow> (list_all (\<lambda>c. \<not> line_terminator c) g \<and> (\<exists>q \<in> set optional_quotes. s = ATTRIBUTE_NAME @ 40 # g @ 41 # q))"
    unfolding s by simp
  finally show ?thesis .
qed

lemma ATTRIBUTE_NAME_Cons: "ATTRIBUTE_NAME = 115 # js ''tylish''"
  by (simp add: ATTRIBUTE_NAME_def js_def)

lemma quote_not_name: "is_quote q \<Longrightarrow> q # r \<noteq> ATTRIBUTE_NAME @ x"
  by (auto simp add: ATTRIBUTE_NAME_Cons is_quote_def)

lemma after_opening_quote: "is_quote q \<Longrightarrow> after_opening (q # r) = None"
proof (cases "after_opening (q # r)")
  case (Some g)
  assume "is_quote q"
  moreover from Some obtain x where "q # r = ATTRIBUTE_NAME @ x" unfolding after_opening_iff by auto
  ultimately show ?thesis using quote_not_name by blast
qed simp

lemma js_open: "js ''stylish('' = ATTRIBUTE_NAME @ [40]"
  by (simp add: ATTRIBUTE_NAME_def js_def)

lemma js_close: "js '')'' = [41]"
  by (simp add: js_def)

lemma is_expression_alt:
  "is_expression content inner \<longleftrightarrow>
    (list_all (\<lambda>c. \<not> line_terminator c) inner \<and>
     ((\<exists>q2 \<in> set optional_quotes. content = ATTRIBUTE_NAME @ 40 # inner @ 41 # q2) \<or>
      (\<exists>q r. is_quote q \<and> content = q # r \<and> (\<exists>q2 \<in> set optional_quotes. r = ATTRIBUTE_NAME @ 40 # inner @ 41 # q2))))"
  unfolding is_expression_def js_open js_close by (auto simp: optional_quotes_def is_quote_def)

lemma exec_iff: "REGEXP_EXPRESSION_exec content = Some inner \<longleftrightarrow> is_expression content inner"
proof (cases content)
  case Nil
  have "[] \<noteq> ATTRIBUTE_NAME @ x" for x by (simp add: ATTRIBUTE_NAME_Cons)
  then show ?thesis using Nil
    by (simp add: REGEXP_EXPRESSION_exec_def is_expression_alt after_opening_iff)
next
  case (Cons q r)
  show ?thesis
  proof (cases "is_quote q")
    case True
    have "REGEXP_EXPRESSION_exec content = after_opening r"
      using True Cons after_opening_quote[of q r] by (simp add: REGEXP_EXPRESSION_exec_def split: option.splits)
    then have "REGEXP_EXPRESSION_exec content = Some inner \<longleftrightarrow>
       (list_all (\<lambda>c. \<not> line_terminator c) inner \<and> (\<exists>q2 \<in> set optional_quotes. r = ATTRIBUTE_NAME @ 40 # inner @ 41 # q2))"
      by (simp only: after_opening_iff)
    moreover have "content \<noteq> ATTRIBUTE_NAME @ x" for x
      using True Cons by (simp add: quote_not_name)
    ultimately show ?thesis using True Cons unfolding is_expression_alt by auto
  next
    case False
    have "REGEXP_EXPRESSION_exec content = after_opening content"
      using False Cons by (simp add: REGEXP_EXPRESSION_exec_def)
    then have "REGEXP_EXPRESSION_exec content = Some inner \<longleftrightarrow>
       (list_all (\<lambda>c. \<not> line_terminator c) inner \<and> (\<exists>q2 \<in> set optional_quotes. content = ATTRIBUTE_NAME @ 40 # inner @ 41 # q2))"
      by (simp only: after_opening_iff)
    then show ?thesis using False Cons unfolding is_expression_alt by auto
  qed
qed

lemma expression_length: "is_expression content inner \<Longrightarrow> length ATTRIBUTE_NAME < length content"
  unfolding is_expression_def js_open by auto

lemma extract_spec:
  "extractArgumentString content =
     (case REGEXP_EXPRESSION_exec content of None \<Rightarrow> []
      | Some inner \<Rightarrow> trim (replace_REGEXP_ESCAPED_QUOTES inner))"
proof (cases "REGEXP_EXPRESSION_exec content")
  case None
  then show ?thesis by (simp add: extractArgumentString_def REGEXP_EXPRESSION_test_def)
next
  case (Some inner)
  then have "length ATTRIBUTE_NAME < length content" using expression_length exec_iff by blast
  then show ?thesis using Some
    by (simp add: extractArgumentString_def REGEXP_EXPRESSION_test_def replace_REGEXP_EXPRESSION_def)
qed

section \<open>Facts about the engine\<close>

subsection \<open>Loops\<close>

lemma forEach_append:
  "forEach (xs @ ys) f s = (case forEach xs f s of Returned s' \<Rightarrow> forEach ys f s' | Threw e s' \<Rightarrow> Threw e s')"
  by (induction xs arbitrary: s) (auto split: result.splits)

lemma processHandler_fold:
  "fold (\<lambda>handler w. if trg = trigger handler
                        then w\<lparr>calls := calls w @ [HandlerCall (fn handler) nodes payload]\<rparr>
                        else w) hs w
   = w\<lparr>calls := calls w @ map (\<lambda>h. HandlerCall (fn h) nodes payload) (filter (\<lambda>h. trigger h = trg) hs)\<rparr>"
  by (induction hs arbitrary: w) auto

lemma processHandler_eq:
  "processHandler nodes payload trg w
   = w\<lparr>calls := calls w @ map (\<lambda>h. HandlerCall (fn h) nodes payload) (filter (\<lambda>h. trigger h = trg) (handlers w))\<rparr>"
  unfolding processHandler_def by (rule processHandler_fold)

lemma walker_forEach:
  "processStyleObject P obj s = forEach (descendants obj) P s"
  "processRules P rules s = forEach (descendants_list rules) P s"
  by (induction P obj s and P rules s rule: processStyleObject_processRules.induct)
     (auto simp: forEach_append split: result.splits)



lemma forEach_map: "forEach (map g xs) f s = forEach xs (\<lambda>x. f (g x)) s"
  by (induction xs arbitrary: s) (simp_all split: result.splits)

lemma process_node_providers:
  "localName doc node = js ''link'' \<or> localName doc node = js ''style'' \<longrightarrow> sheet doc node \<noteq> None \<Longrightarrow>
   process_node doc node w = forEach (providers_of_node doc node) (processStyleProvider doc) w"
  by (auto simp: process_node_def providers_of_node_def walker_forEach forEach_map split: result.splits)

lemma forEach_providers:
  "sheets_loaded doc nodes \<Longrightarrow>
   forEach nodes (process_node doc) w = forEach (providers doc nodes) (processStyleProvider doc) w"
proof (induction nodes arbitrary: w)
  case Nil
  then show ?case by (simp add: providers_def)
next
  case (Cons node nodes)
  from Cons.prems have a: "localName doc node = js ''link'' \<or> localName doc node = js ''style'' \<longrightarrow> sheet doc node \<noteq> None"
    and b: "sheets_loaded doc nodes" by (simp_all add: sheets_loaded_def)
  have "providers doc (node # nodes) = providers_of_node doc node @ providers doc nodes"
    by (simp add: providers_def)
  then show ?case
    using Cons.IH[OF b] process_node_providers[OF a]
    by (simp add: forEach_append split: result.splits)
qed

lemma process_providers:
  "sheets_loaded doc (querySelectorAll doc (dataset w) QUERY_SELECTOR) \<Longrightarrow>
   process doc w = forEach (providers doc (querySelectorAll doc (dataset w) QUERY_SELECTOR))
                     (processStyleProvider doc) w"
  unfolding process_def by (rule forEach_providers)

subsection \<open>Registration\<close>

lemma indexOf_in: "x \<in> set xs \<Longrightarrow> 0 \<le> indexOf xs x"
  by (induction xs) auto

lemma splice1_indexOf: "x \<in> set xs \<Longrightarrow> splice1 (nat (indexOf xs x)) xs = remove1 x xs"
proof (induction xs)
  case Nil
  then show ?case by simp
next
  case (Cons y ys)
  show ?case
  proof (cases "y = x")
    case True
    then show ?thesis by (simp add: splice1_def)
  next
    case False
    with Cons.prems have in_ys: "x \<in> set ys" by simp
    then have ge: "0 \<le> indexOf ys x" by (rule indexOf_in)
    then have "indexOf (y # ys) x = indexOf ys x + 1" using False by simp
    moreover have "nat (indexOf ys x + 1) = Suc (nat (indexOf ys x))" using ge by simp
    ultimately show ?thesis using Cons.IH[OF in_ys] False by (simp add: splice1_def)
  qed
qed

subsection \<open>Literals\<close>

lemma js_eq [simp]: "js a = js b \<longleftrightarrow> a = b"
  by (simp add: js_def inj_map_eq_map inj_on_def)

lemma js_Nil [simp]: "js s = [] \<longleftrightarrow> s = []" "[] = js s \<longleftrightarrow> s = []"
  by (auto simp add: js_def)

lemmas extract_defs = extractArgumentString_def REGEXP_EXPRESSION_test_def replace_REGEXP_EXPRESSION_def
  REGEXP_EXPRESSION_exec_def after_opening_def ATTRIBUTE_NAME_def js_def is_quote_def
  line_terminator_def closing_def trim_def white_space_def

subsection \<open>Listeners\<close>

lemma property_Some_object: "property v k = Some x \<Longrightarrow> typeof (Some v) = js ''object'' \<and> v \<noteq> JNull"
  by (cases v) (auto simp: property_def own_properties_def)

lemma mode_of_global:
  "mode_of m = (if m = Some (JStr (js ''global'')) then js ''global'' else js ''local'')"
  by (auto simp: mode_of_def MODES_def split: option.splits json.splits)

lemma listeners_addEventListener:
  "l \<in> set (listeners (addEventListener node ev c cap w) n) \<longleftrightarrow>
     l \<in> set (listeners w n) \<or> (n = node \<and> l = \<lparr>ltype = ev, callback = c, capture = flatten cap\<rparr>)"
  by (auto simp: addEventListener_def Let_def)

lemma frame_addEventListener:
  "handlers (addEventListener node ev c cap w) = handlers w"
  "triggers (addEventListener node ev c cap w) = triggers w"
  "calls (addEventListener node ev c cap w) = calls w"
  "dataset (addEventListener node ev c cap w) = dataset w"
  "closures (addEventListener node ev c cap w) = closures w"
  by (simp_all add: addEventListener_def Let_def)

lemma frame_addEventListener':
  "currHandler (addEventListener node ev c cap w) = currHandler w"
  by (simp_all add: addEventListener_def Let_def)

lemma frame_removeEventListener:
  "triggers (removeEventListener n ev c w) = triggers w"
  "handlers (removeEventListener n ev c w) = handlers w"
  "closures (removeEventListener n ev c w) = closures w"
  "currHandler (removeEventListener n ev c w) = currHandler w"
  "calls (removeEventListener n ev c w) = calls w"
  by (simp_all add: removeEventListener_def)

lemma install_nodes:
  "l \<in> set (listeners (fold (\<lambda>node w. addEventListener node ev c cap w) nodes w) n) \<longleftrightarrow>
     l \<in> set (listeners w n) \<or> (n \<in> set nodes \<and> l = \<lparr>ltype = ev, callback = c, capture = flatten cap\<rparr>)"
  by (induction nodes arbitrary: w) (auto simp: listeners_addEventListener)

lemma frame_install_nodes:
  "handlers (fold (\<lambda>node w. addEventListener node ev c cap w) nodes w) = handlers w"
  "triggers (fold (\<lambda>node w. addEventListener node ev c cap w) nodes w) = triggers w"
  "calls (fold (\<lambda>node w. addEventListener node ev c cap w) nodes w) = calls w"
  "dataset (fold (\<lambda>node w. addEventListener node ev c cap w) nodes w) = dataset w"
  "closures (fold (\<lambda>node w. addEventListener node ev c cap w) nodes w) = closures w"
  by (induction nodes arbitrary: w) (simp_all add: frame_addEventListener)

lemma install_events:
  "l \<in> set (listeners (fold (\<lambda>ev w. fold (\<lambda>node w. addEventListener node ev c cap w) nodes w) events w) n) \<longleftrightarrow>
     l \<in> set (listeners w n) \<or>
     (n \<in> set nodes \<and> (\<exists>ev \<in> set events. l = \<lparr>ltype = ev, callback = c, capture = flatten cap\<rparr>))"
  by (induction events arbitrary: w) (auto simp: install_nodes)

lemma frame_install_events:
  "handlers (fold (\<lambda>ev w. fold (\<lambda>node w. addEventListener node ev c cap w) nodes w) events w) = handlers w"
  "triggers (fold (\<lambda>ev w. fold (\<lambda>node w. addEventListener node ev c cap w) nodes w) events w) = triggers w"
  "calls (fold (\<lambda>ev w. fold (\<lambda>node w. addEventListener node ev c cap w) nodes w) events w) = calls w"
  "dataset (fold (\<lambda>ev w. fold (\<lambda>node w. addEventListener node ev c cap w) nodes w) events w) = dataset w"
  "closures (fold (\<lambda>ev w. fold (\<lambda>node w. addEventListener node ev c cap w) nodes w) events w) = closures w"
  by (induction events arbitrary: w) (simp_all add: frame_install_nodes)

lemma triggerOn_valid:
  assumes "nodes \<noteq> []" "property args (js ''on'') = Some on"
    "property on (js ''events'') = Some (JArr events)"
  shows "triggerOn nodes args styleProvider w =
     Returned (fold (\<lambda>ev u. fold (\<lambda>node u. addEventListener node ev
         (Closure (closures w) TriggerOn (mode_of (property on (js ''mode''))) nodes)
         (property on (js ''capture'')) u) nodes u) events (w\<lparr>closures := Suc (closures w)\<rparr>))"
proof -
  from property_Some_object[OF assms(2)] have a: "args \<noteq> JNull" by simp
  from property_Some_object[OF assms(3)] have o: "typeof (Some on) = js ''object''" "on \<noteq> JNull" by simp_all
  show ?thesis using assms a o
    by (cases args; cases on) (simp_all add: triggerOn_def Let_def)
qed

subsection \<open>Data attributes\<close>

lemma write_fields:
  "dataset (fold (\<lambda>node. set_data node name s) nodes w) n k
     = (if n \<in> set nodes \<and> k = name then Some s else dataset w n k)"
  "calls (fold (\<lambda>node. set_data node name s) nodes w)
     = calls w @ map (\<lambda>node. SetAttribute node (data_attribute name) s) nodes"
  "handlers (fold (\<lambda>node. set_data node name s) nodes w) = handlers w"
  "triggers (fold (\<lambda>node. set_data node name s) nodes w) = triggers w"
  "listeners (fold (\<lambda>node. set_data node name s) nodes w) = listeners w"
  by (induction nodes arbitrary: w) (auto simp add: set_data_def)

lemma dataset_set_eq:
  "has_dataset doc node \<Longrightarrow> settable doc d name \<Longrightarrow>
   dataset_set doc node name (property d name) w
     = Returned (set_data node name (string_of (property d name)) w)"
  by (auto simp add: dataset_set_def settable_def string_of_def split: sum.splits)

lemma forEach_dataset_set:
  "list_all (has_dataset doc) nodes \<Longrightarrow> settable doc d name \<Longrightarrow>
   forEach nodes (\<lambda>node. dataset_set doc node name (property d name)) w
     = Returned (fold (\<lambda>node. set_data node name (string_of (property d name))) nodes w)"
  by (induction nodes arbitrary: w) (simp_all add: dataset_set_eq)

lemma body_eq:
  "property d (js ''hasOwnProperty'') = None \<Longrightarrow> name \<in> set (map fst (own_properties d)) \<Longrightarrow>
   list_all (has_dataset doc) nodes \<Longrightarrow> settable doc d name \<Longrightarrow>
   triggerData_body doc nodes d name w =
     Returned (processHandler nodes (Data d) TriggerData
       (fold (\<lambda>node. set_data node name (string_of (property d name))) nodes w))"
  by (simp add: triggerData_body_def forEach_dataset_set)

lemma forEach_body:
  "property d (js ''hasOwnProperty'') = None \<Longrightarrow> set names \<subseteq> set (map fst (own_properties d)) \<Longrightarrow>
   list_all (has_dataset doc) nodes \<Longrightarrow> list_all (settable doc d) names \<Longrightarrow>
   forEach names (triggerData_body doc nodes d) w =
     Returned (fold (\<lambda>name v. processHandler nodes (Data d) TriggerData
       (fold (\<lambda>node. set_data node name (string_of (property d name))) nodes v)) names w)"
  by (induction names arbitrary: w) (simp_all add: body_eq)

lemma step_fields:
  "dataset (processHandler nodes (Data d) TriggerData
       (fold (\<lambda>node. set_data node name s) nodes v)) n k
     = (if n \<in> set nodes \<and> k = name then Some s else dataset v n k)"
  "calls (processHandler nodes (Data d) TriggerData
       (fold (\<lambda>node. set_data node name s) nodes v))
     = calls v @ map (\<lambda>node. SetAttribute node (data_attribute name) s) nodes
         @ map (\<lambda>h. HandlerCall (fn h) nodes (Data d)) (filter (\<lambda>h. trigger h = TriggerData) (handlers v))"
  "handlers (processHandler nodes (Data d) TriggerData
       (fold (\<lambda>node. set_data node name s) nodes v)) = handlers v"
  "triggers (processHandler nodes (Data d) TriggerData
       (fold (\<lambda>node. set_data node name s) nodes v)) = triggers v"
  "listeners (processHandler nodes (Data d) TriggerData
       (fold (\<lambda>node. set_data node name s) nodes v)) = listeners v"
  by (simp_all add: processHandler_eq write_fields)

lemma steps_fields:
  "dataset (fold (\<lambda>name v. processHandler nodes (Data d) TriggerData
       (fold (\<lambda>node. set_data node name (string_of (property d name))) nodes v)) names w) n k
     = (if n \<in> set nodes \<and> k \<in> set names then Some (string_of (property d k)) else dataset w n k)"
  "calls (fold (\<lambda>name v. processHandler nodes (Data d) TriggerData
       (fold (\<lambda>node. set_data node name (string_of (property d name))) nodes v)) names w)
     = calls w @ concat (map (\<lambda>name.
           map (\<lambda>node. SetAttribute node (data_attribute name) (string_of (property d name))) nodes
         @ map (\<lambda>h. HandlerCall (fn h) nodes (Data d))
             (filter (\<lambda>h. trigger h = TriggerData) (handlers w))) names)"
  "handlers (fold (\<lambda>name v. processHandler nodes (Data d) TriggerData
       (fold (\<lambda>node. set_data node name (string_of (property d name))) nodes v)) names w) = handlers w"
  "triggers (fold (\<lambda>name v. processHandler nodes (Data d) TriggerData
       (fold (\<lambda>node. set_data node name (string_of (property d name))) nodes v)) names w) = triggers w"
  "listeners (fold (\<lambda>name v. processHandler nodes (Data d) TriggerData
       (fold (\<lambda>node. set_data node name (string_of (property d name))) nodes v)) names w) = listeners w"
  by (induction names arbitrary: w) (auto simp add: step_fields)

lemma hyphenate_plain: "list_all (\<lambda>c. \<not> is_capital c) name \<Longrightarrow> hyphenate name = name"
  by (induction name) simp_all

lemma data_attribute_x: "data_attribute (js ''x'') = js ''data-x''"
  by (simp add: data_attribute_def is_capital_def js_def)

lemma example_valid_data_x: "example_valid_name (js ''data-x'')"
  by (simp add: example_valid_name_def is_letter_def js_def)

lemma hyphen_lower_x: "\<not> hyphen_lower (js ''x'')"
  by (simp add: js_def)

lemma settable_x:
  "valid_attribute_name doc (js ''data-x'') \<Longrightarrow> settable doc (JObj [(js ''x'', JStr (js ''1''))]) (js ''x'')"
  by (simp add: settable_def data_attribute_x hyphen_lower_x property_def own_properties_def ToString_value_def)

lemma string_of_x: "string_of (property (JObj [(js ''x'', JStr (js ''1''))]) (js ''x'')) = js ''1''"
  by (simp add: string_of_def property_def own_properties_def ToString_value_def)

subsection \<open>The examples, step by step\<close>

lemma extract_on_click: "extractArgumentString on_click = js ''{\"on\":{\"events\":[\"click\"]}}''"
  by (simp add: on_click_def extract_defs)

lemma extract_data_x: "extractArgumentString data_x = js ''{\"data\":{\"x\":\"1\"}}''"
  by (simp add: data_x_def extract_defs)

lemma extract_bad: "extractArgumentString bad = js ''{bad}''"
  by (simp add: bad_def extract_defs)

lemma parse_on_click: "example_parse (js ''{\"on\":{\"events\":[\"click\"]}}'') = Some (JObj [(js ''on'', JObj [(js ''events'', JArr [JStr (js ''click'')])])])"
  by (simp add: example_parse_def)

lemma parse_examples:
  "example_parse (js ''{\"data\":{\"x\":\"1\"}}'') = Some (JObj [(js ''data'', JObj [(js ''x'', JStr (js ''1''))])])"
  "example_parse (js ''{bad}'') = None"
  by (simp_all add: example_parse_def)

lemma example_document_fields:
  "querySelectorAll (example_document nodes contents) d QUERY_SELECTOR = nodes"
  "localName (example_document nodes contents) n = js ''div''"
  "style_content (example_document nodes contents) = contents"
  "JSON_parse (example_document nodes contents) = example_parse"
  "sheet (example_document nodes contents) n = None"
  "has_dataset (example_document nodes contents) n"
  "valid_attribute_name (example_document nodes contents) = example_valid_name"
  by (simp_all add: example_document_def)

lemma engine_on_fields:
  "triggers engine_on = [TriggerOn]" "handlers engine_on = [\<lparr>trigger = TriggerOn, fn = 1\<rparr>]"
  "calls engine_on = []" "listeners engine_on n = []" "closures engine_on = 0"
  by (simp_all add: engine_on_def addHandler_def addTrigger_def Stylish_def)

lemma engine_data_fields:
  "triggers engine_data = [TriggerData]" "handlers engine_data = [\<lparr>trigger = TriggerData, fn = 1\<rparr>]"
  "calls engine_data = []" "dataset engine_data n k = None"
  by (simp_all add: engine_data_def addHandler_def addTrigger_def Stylish_def)

lemma engine_tracked_fields:
  "triggers engine_tracked = [TriggerOnTracked]"
  "handlers engine_tracked = [\<lparr>trigger = TriggerOnTracked, fn = 1\<rparr>]"
  "calls engine_tracked = []" "listeners engine_tracked n = []" "closures engine_tracked = 0"
  "currHandler engine_tracked = None"
  by (simp_all add: engine_tracked_def addHandler_def addTrigger_def Stylish_def)

lemma engine_both_fields:
  "triggers engine_both = [TriggerOn, TriggerData]"
  "handlers engine_both = [\<lparr>trigger = TriggerOn, fn = 1\<rparr>, \<lparr>trigger = TriggerData, fn = 2\<rparr>,
      \<lparr>trigger = TriggerOn, fn = 3\<rparr>]"
  "calls engine_both = []"
  by (simp_all add: engine_both_def addHandler_def addTrigger_def Stylish_def)

lemma malformed_provider:
  "style_content_of doc p = Some content \<Longrightarrow> extractArgumentString content \<noteq> [] \<Longrightarrow>
   JSON_parse doc (extractArgumentString content) = None \<Longrightarrow>
   processStyleProvider doc p w = Threw (Error (js ''_processStyleProvider'') (label doc p) SyntaxError) w"
  by (simp add: processStyleProvider_def)

lemma processTrigger_single:
  "triggers w = [trg] \<Longrightarrow> processTrigger doc nodes args p w =
     (case call_trigger doc trg nodes args p w of Returned w' \<Rightarrow> Returned w'
      | Threw e w' \<Rightarrow> Threw (Error (js ''_processTrigger'') (label doc p) e) w')"
  by (simp add: processTrigger_def split: result.splits)

lemma provider_on_click:
  "style_content doc n = on_click \<Longrightarrow> JSON_parse doc = example_parse \<Longrightarrow>
   processStyleProvider doc (Element n) w =
     processTrigger doc [n] (JObj [(js ''on'', JObj [(js ''events'', JArr [JStr (js ''click'')])])]) (Element n) w"
  by (simp add: processStyleProvider_def style_content_of_def extract_on_click parse_on_click affected_nodes_def Let_def)

lemma provider_data_x:
  "style_content doc n = data_x \<Longrightarrow> JSON_parse doc = example_parse \<Longrightarrow>
   processStyleProvider doc (Element n) w =
     processTrigger doc [n] (JObj [(js ''data'', JObj [(js ''x'', JStr (js ''1''))])]) (Element n) w"
  by (simp add: processStyleProvider_def style_content_of_def extract_data_x parse_examples affected_nodes_def Let_def)

lemma provider_bad:
  "style_content doc n = bad \<Longrightarrow> JSON_parse doc = example_parse \<Longrightarrow>
   processStyleProvider doc (Element n) w =
     Threw (Error (js ''_processStyleProvider'') (localName doc n) SyntaxError) w"
  by (simp add: processStyleProvider_def style_content_of_def extract_bad parse_examples label_def Let_def)

lemma triggerOn_click:
  "triggerOn [n] (JObj [(js ''on'', JObj [(js ''events'', JArr [JStr (js ''click'')])])]) p w =
     Returned (addEventListener n (JStr (js ''click'')) (Closure (closures w) TriggerOn (js ''local'') [n]) None (w\<lparr>closures := Suc (closures w)\<rparr>))"
  by (simp add: triggerOn_def property_def own_properties_def mode_of_def Let_def)

lemma triggerData_x_nodes:
  "nodes \<noteq> [] \<Longrightarrow> list_all (has_dataset doc) nodes \<Longrightarrow> valid_attribute_name doc (js ''data-x'') \<Longrightarrow>
   triggerData doc nodes (JObj [(js ''data'', JObj [(js ''x'', JStr (js ''1''))])]) p w =
     Returned (processHandler nodes (Data (JObj [(js ''x'', JStr (js ''1''))])) TriggerData
        (fold (\<lambda>node. set_data node (js ''x'') (js ''1'')) nodes w))"
proof -
  assume a: "nodes \<noteq> []" "list_all (has_dataset doc) nodes" "valid_attribute_name doc (js ''data-x'')"
  let ?d = "JObj [(js ''x'', JStr (js ''1''))]"
  have k: "property ?d (js ''hasOwnProperty'') = None" "js ''x'' \<in> set (map fst (own_properties ?d))"
    by (simp_all add: property_def own_properties_def)
  have b: "triggerData_body doc nodes ?d (js ''x'') w
      = Returned (processHandler nodes (Data ?d) TriggerData
          (fold (\<lambda>node. set_data node (js ''x'') (js ''1'')) nodes w))"
    using body_eq[OF k a(2) settable_x[OF a(3)], of w] by (simp only: string_of_x)
  have "triggerData doc nodes (JObj [(js ''data'', ?d)]) p w
      = forEach [js ''x''] (triggerData_body doc nodes ?d) w"
    using a(1) by (simp add: triggerData_def property_def own_properties_def)
  then show ?thesis by (simp add: b)
qed

lemma triggerData_x:
  "has_dataset doc n \<Longrightarrow> valid_attribute_name doc (js ''data-x'') \<Longrightarrow>
   triggerData doc [n] (JObj [(js ''data'', JObj [(js ''x'', JStr (js ''1''))])]) p w =
     Returned (processHandler [n] (Data (JObj [(js ''x'', JStr (js ''1''))])) TriggerData
        (set_data n (js ''x'') (js ''1'') w))"
  using triggerData_x_nodes[of "[n]" doc p w] by simp

lemma triggerOn_tracked_click:
  "triggerOn_tracked [n] (JObj [(js ''on'', JObj [(js ''events'', JArr [JStr (js ''click'')])])]) p w =
     Returned (addEventListener n (JStr (js ''click'')) (Closure (closures w) TriggerOnTracked (js ''local'') [n]) None
       (case currHandler w of
          None \<Rightarrow> w\<lparr>closures := Suc (closures w), prevHandler := currHandler w,
                     currHandler := Some (Closure (closures w) TriggerOnTracked (js ''local'') [n])\<rparr>
        | Some prev \<Rightarrow> removeEventListener n (JStr (js ''click'')) prev
            (w\<lparr>closures := Suc (closures w), prevHandler := currHandler w,
               currHandler := Some (Closure (closures w) TriggerOnTracked (js ''local'') [n])\<rparr>)))"
  by (simp add: triggerOn_tracked_def property_def own_properties_def mode_of_def Let_def)

lemma node_on_click:
  "triggers w = [TriggerOn] \<Longrightarrow> process_node (example_document ns (\<lambda>node. on_click)) n w =
     Returned (addEventListener n (JStr (js ''click'')) (Closure (closures w) TriggerOn (js ''local'') [n]) None (w\<lparr>closures := Suc (closures w)\<rparr>))"
  by (simp add: process_node_def provider_on_click processTrigger_single call_trigger_def triggerOn_click example_document_def)

lemma node_data_x:
  "triggers w = [TriggerData] \<Longrightarrow> handlers w = [\<lparr>trigger = TriggerData, fn = f\<rparr>] \<Longrightarrow>
   style_content doc n = data_x \<Longrightarrow> JSON_parse doc = example_parse \<Longrightarrow>
   has_dataset doc n \<Longrightarrow> valid_attribute_name doc (js ''data-x'') \<Longrightarrow>
   processStyleProvider doc (Element n) w =
     Returned (w\<lparr>dataset := (dataset w)(n := (dataset w n)(js ''x'' := Some (js ''1''))),
                calls := calls w @ [SetAttribute n (js ''data-x'') (js ''1''),
                                    HandlerCall f [n] (Data (JObj [(js ''x'', JStr (js ''1''))]))]\<rparr>)"
  by (simp add: provider_data_x processTrigger_single call_trigger_def triggerData_x processHandler_eq
        set_data_def data_attribute_x)

lemma node_on_click_tracked:
  "triggers w = [TriggerOnTracked] \<Longrightarrow> process_node (example_document ns (\<lambda>node. on_click)) n w =
     Returned (addEventListener n (JStr (js ''click'')) (Closure (closures w) TriggerOnTracked (js ''local'') [n]) None
       (case currHandler w of
          None \<Rightarrow> w\<lparr>closures := Suc (closures w), prevHandler := currHandler w,
                     currHandler := Some (Closure (closures w) TriggerOnTracked (js ''local'') [n])\<rparr>
        | Some prev \<Rightarrow> removeEventListener n (JStr (js ''click'')) prev
            (w\<lparr>closures := Suc (closures w), prevHandler := currHandler w,
               currHandler := Some (Closure (closures w) TriggerOnTracked (js ''local'') [n])\<rparr>)))"
  by (simp add: process_node_def provider_on_click processTrigger_single call_trigger_def
        triggerOn_tracked_click example_document_def)

lemma example_page_fields:
  "querySelectorAll example_page d QUERY_SELECTOR = [0, 3]"
  "querySelectorAll example_page d (js ''div'') = [1, 2]"
  "localName example_page 0 = js ''style''" "localName example_page 3 = js ''div''"
  "sheet example_page 0 = Some (CSSStyleSheet [CSSStyleRule (js ''div'') data_x [], CSSStyleRule (js ''p'') bad []])"
  "style_content example_page 3 = data_x"
  "JSON_parse example_page = example_parse"
  "has_dataset example_page n"
  "valid_attribute_name example_page = example_valid_name"
  by (simp_all add: example_page_def QUERY_SELECTOR_def)

lemma example_page_providers:
  "providers example_page [0, 3]
     = [Rule (CSSStyleRule (js ''div'') data_x [])] @ Rule (CSSStyleRule (js ''p'') bad []) # [Element 3]"
  by (simp add: providers_def providers_of_node_def example_page_fields)

lemma example_page_loaded: "sheets_loaded example_page [0, 3]"
  by (simp add: sheets_loaded_def example_page_fields)

lemma rule_data_x:
  "triggers w = [TriggerData] \<Longrightarrow>
   processStyleProvider example_page (Rule (CSSStyleRule (js ''div'') data_x [])) w =
     Returned (processHandler [1, 2] (Data (JObj [(js ''x'', JStr (js ''1''))])) TriggerData
        (fold (\<lambda>node. set_data node (js ''x'') (js ''1'')) [1, 2] w))"
  by (simp add: processStyleProvider_def style_content_of_def affected_nodes_def extract_data_x
       parse_examples example_page_fields processTrigger_single call_trigger_def triggerData_x_nodes
       example_valid_data_x)


lemma untracked_two_passes:
  "(case process (example_document [0] (\<lambda>node. on_click)) engine_on of
      Returned w1 \<Rightarrow> (case process (example_document [0] (\<lambda>node. on_click)) w1 of
         Returned w2 \<Rightarrow> calls (dispatchEvent (click 0) w2) | Threw e w2 \<Rightarrow> [])
    | Threw e w1 \<Rightarrow> [])
   = [HandlerCall 1 [0] (Event (click 0)), HandlerCall 1 [0] (Event (click 0))]"
  by (simp add: process_def example_document_fields node_on_click frame_addEventListener
      engine_on_fields addEventListener_def dispatchEvent_def click_def processHandler_def
      flatten_def ToBoolean_def Let_def)

lemma tracked_two_passes:
  "(case process (example_document [0, 1] (\<lambda>node. on_click)) engine_tracked of
      Returned w1 \<Rightarrow> (case process (example_document [0, 1] (\<lambda>node. on_click)) w1 of
         Returned w2 \<Rightarrow> calls (dispatchEvent (click 0) w2) | Threw e w2 \<Rightarrow> [])
    | Threw e w1 \<Rightarrow> [])
   = [HandlerCall 1 [0] (Event (click 0)), HandlerCall 1 [0] (Event (click 0))]"
  by (simp add: process_def example_document_fields node_on_click_tracked frame_addEventListener
      frame_addEventListener' frame_removeEventListener engine_tracked_fields
      addEventListener_def removeEventListener_def dispatchEvent_def click_def processHandler_def
      flatten_def ToBoolean_def Let_def)

lemma tracked_single_provider:
  "(case process (example_document [0] (\<lambda>node. on_click)) engine_tracked of
      Returned w1 \<Rightarrow> (case process (example_document [0] (\<lambda>node. on_click)) w1 of
         Returned w2 \<Rightarrow> calls (dispatchEvent (click 0) w2) | Threw e w2 \<Rightarrow> [])
    | Threw e w1 \<Rightarrow> [])
   = [HandlerCall 1 [0] (Event (click 0))]"
  by (simp add: process_def example_document_fields node_on_click_tracked frame_addEventListener
      frame_addEventListener' frame_removeEventListener engine_tracked_fields
      addEventListener_def removeEventListener_def dispatchEvent_def click_def processHandler_def
      flatten_def ToBoolean_def Let_def)


section \<open>The claims\<close>

text \<open>
  Two things hold for every statement below. A user's callback and a user's trigger are
  opaque: a call is recorded in \<open>calls\<close>, returns normally and changes nothing else. The
  host is as far as it is modelled above: a dataset is a map from names to the values
  written, and an event reaches the listeners of its target only.
\<close>

subsection \<open>C1: the expression extractor\<close>

text \<open>
  C1. For every content string: \<open>_extractArgumentString\<close> returns the empty string when
  the content is no longer than the marker name or does not match the pattern
  \<open>^['"]?stylish\((.*)\)['"]?$\<close> (there is no inner text for which it has the shape of
  the pattern); when it matches with inner text \<open>inner\<close>, it returns \<open>inner\<close> with every
  backslash-escaped quote replaced by a double quote and then trimmed; and when the
  extracted text of a provider's content is empty, \<open>_processStyleProvider\<close> returns with
  nothing changed: no trigger was called.
\<close>

theorem C1_extract:
  "(length content \<le> length ATTRIBUTE_NAME \<or> (\<forall>inner. \<not> is_expression content inner)
      \<longrightarrow> extractArgumentString content = [])
   \<and> (is_expression content inner
      \<longrightarrow> extractArgumentString content = trim (replace_REGEXP_ESCAPED_QUOTES inner))
   \<and> (style_content_of doc styleProvider = Some content \<and> extractArgumentString content = []
      \<longrightarrow> processStyleProvider doc styleProvider w = Returned w)"
proof (intro conjI impI)
  assume "length content \<le> length ATTRIBUTE_NAME \<or> (\<forall>inner. \<not> is_expression content inner)"
  then show "extractArgumentString content = []"
  proof
    assume "length content \<le> length ATTRIBUTE_NAME"
    then show ?thesis by (simp add: extractArgumentString_def)
  next
    assume "\<forall>inner. \<not> is_expression content inner"
    then have "REGEXP_EXPRESSION_exec content = None"
      using exec_iff[of content] by (cases "REGEXP_EXPRESSION_exec content") auto
    then show ?thesis by (simp add: extract_spec)
  qed
next
  assume "is_expression content inner"
  then have "REGEXP_EXPRESSION_exec content = Some inner" by (simp add: exec_iff)
  then show "extractArgumentString content = trim (replace_REGEXP_ESCAPED_QUOTES inner)"
    by (simp add: extract_spec)
next
  assume "style_content_of doc styleProvider = Some content \<and> extractArgumentString content = []"
  then show "processStyleProvider doc styleProvider w = Returned w"
    by (simp add: processStyleProvider_def)
qed

theorem C1_extract_witness:
  "length (js ''stylish'') \<le> length ATTRIBUTE_NAME
   \<and> extractArgumentString (js ''stylish'') = []
   \<and> (\<forall>inner. \<not> is_expression (js ''content: none'') inner)
   \<and> extractArgumentString (js ''content: none'') = []
   \<and> is_expression (39 # js ''stylish( {'' @ [92, 39] @ js ''a'' @ [92, 34] @ js '':1} )'' @ [39])
        (js '' {'' @ [92, 39] @ js ''a'' @ [92, 34] @ js '':1} '')
   \<and> extractArgumentString (39 # js ''stylish( {'' @ [92, 39] @ js ''a'' @ [92, 34] @ js '':1} )'' @ [39])
        = js ''{\"a\":1}''
   \<and> style_content_of (example_document [0] (\<lambda>node. js ''content: none'')) (Element 0)
        = Some (js ''content: none'')
   \<and> processStyleProvider (example_document [0] (\<lambda>node. js ''content: none'')) (Element 0) engine_on
        = Returned engine_on"
proof -
  let ?c = "39 # js ''stylish( {'' @ [92, 39] @ js ''a'' @ [92, 34] @ js '':1} )'' @ [39]"
  let ?i = "js '' {'' @ [92, 39] @ js ''a'' @ [92, 34] @ js '':1} ''"
  let ?doc = "example_document [0] (\<lambda>node. js ''content: none'')"
  have a: "length (js ''stylish'') \<le> length ATTRIBUTE_NAME" by (simp add: ATTRIBUTE_NAME_def)
  have b: "\<forall>inner. \<not> is_expression (js ''content: none'') inner"
    by (simp add: is_expression_def optional_quotes_def js_def)
  have c: "is_expression ?c ?i"
    by (simp add: is_expression_def optional_quotes_def js_def line_terminator_def)
  have d: "trim (replace_REGEXP_ESCAPED_QUOTES ?i) = js ''{\"a\":1}''"
    by (simp add: js_def is_quote_def trim_def white_space_def line_terminator_def)
  have e: "style_content_of ?doc (Element 0) = Some (js ''content: none'')"
    by (simp add: style_content_of_def example_document_def)
  from C1_extract[of "js ''stylish''" ?i ?doc "Element 0" engine_on] a
  have 1: "extractArgumentString (js ''stylish'') = []" by blast
  from C1_extract[of "js ''content: none''" ?i ?doc "Element 0" engine_on] b e
  have 2: "extractArgumentString (js ''content: none'') = []"
    and 3: "processStyleProvider ?doc (Element 0) engine_on = Returned engine_on" by blast+
  from C1_extract[of ?c ?i ?doc "Element 0" engine_on] c d
  have 4: "extractArgumentString ?c = js ''{\"a\":1}''" by simp
  from a b c e 1 2 3 4 show ?thesis by blast
qed


subsection \<open>C2: a malformed expression and the rest of the pass\<close>

text \<open>
  C2, as the code has it. \<open>process\<close> takes the style providers of the document in
  document order (every \<open>link\<close> and \<open>style\<close> element having a sheet). When one of them, a
  rule or an element, carries an expression whose argument text \<open>JSON.parse\<close> refuses,
  \<open>process\<close> throws at that provider the error built in \<open>_processStyleProvider\<close>: the
  providers before it have been processed as usual (or one of them has thrown first),
  and the providers after it are not processed in this call, whatever they are.
\<close>

theorem C2_malformed_aborts:
  "sheets_loaded doc (querySelectorAll doc (dataset w) QUERY_SELECTOR) \<Longrightarrow>
   providers doc (querySelectorAll doc (dataset w) QUERY_SELECTOR) = before @ p # after \<Longrightarrow>
   style_content_of doc p = Some content \<Longrightarrow>
   extractArgumentString content \<noteq> [] \<Longrightarrow>
   JSON_parse doc (extractArgumentString content) = None \<Longrightarrow>
   process doc w = (case forEach before (processStyleProvider doc) w of
       Returned w' \<Rightarrow> Threw (Error (js ''_processStyleProvider'') (label doc p) SyntaxError) w'
     | Threw e w' \<Rightarrow> Threw e w')"
proof -
  assume a: "sheets_loaded doc (querySelectorAll doc (dataset w) QUERY_SELECTOR)"
    "providers doc (querySelectorAll doc (dataset w) QUERY_SELECTOR) = before @ p # after"
    "style_content_of doc p = Some content" "extractArgumentString content \<noteq> []"
    "JSON_parse doc (extractArgumentString content) = None"
  have "processStyleProvider doc p v = Threw (Error (js ''_processStyleProvider'') (label doc p) SyntaxError) v" for v
    using a(3-5) by (rule malformed_provider)
  then show ?thesis
    by (simp add: process_providers[OF a(1)] a(2) forEach_append split: result.splits)
qed

theorem C2_malformed_aborts_witness:
  "sheets_loaded example_page (querySelectorAll example_page (dataset engine_data) QUERY_SELECTOR)
   \<and> providers example_page (querySelectorAll example_page (dataset engine_data) QUERY_SELECTOR)
       = [Rule (CSSStyleRule (js ''div'') data_x [])] @ Rule (CSSStyleRule (js ''p'') bad []) # [Element 3]
   \<and> style_content_of example_page (Rule (CSSStyleRule (js ''p'') bad [])) = Some bad
   \<and> extractArgumentString bad \<noteq> []
   \<and> JSON_parse example_page (extractArgumentString bad) = None
   \<and> (\<exists>w'. process example_page engine_data
              = Threw (Error (js ''_processStyleProvider'') (js ''p'') SyntaxError) w'
         \<and> calls w' = [SetAttribute 1 (js ''data-x'') (js ''1''), SetAttribute 2 (js ''data-x'') (js ''1''),
                        HandlerCall 1 [1, 2] (Data (JObj [(js ''x'', JStr (js ''1''))]))]
         \<and> dataset w' 2 (js ''x'') = Some (js ''1'')
         \<and> dataset w' 3 (js ''x'') = None)"
proof -
  let ?good = "Rule (CSSStyleRule (js ''div'') data_x [])"
  let ?bad = "Rule (CSSStyleRule (js ''p'') bad [])"
  let ?w' = "processHandler [1, 2] (Data (JObj [(js ''x'', JStr (js ''1''))])) TriggerData
        (fold (\<lambda>node. set_data node (js ''x'') (js ''1'')) [1, 2] engine_data)"
  have h: "sheets_loaded example_page (querySelectorAll example_page (dataset engine_data) QUERY_SELECTOR)"
    "providers example_page (querySelectorAll example_page (dataset engine_data) QUERY_SELECTOR)
       = [?good] @ ?bad # [Element 3]"
    "style_content_of example_page ?bad = Some bad"
    "extractArgumentString bad \<noteq> []"
    "JSON_parse example_page (extractArgumentString bad) = None"
    by (simp_all add: example_page_fields example_page_providers example_page_loaded
          style_content_of_def extract_bad parse_examples)
  have b: "forEach [?good] (processStyleProvider example_page) engine_data = Returned ?w'"
    by (simp add: rule_data_x engine_data_fields)
  have l: "label example_page ?bad = js ''p''" by (simp add: label_def)
  from C2_malformed_aborts[OF h] b l
  have r: "process example_page engine_data
      = Threw (Error (js ''_processStyleProvider'') (js ''p'') SyntaxError) ?w'" by simp
  have c: "calls ?w' = [SetAttribute 1 (js ''data-x'') (js ''1''), SetAttribute 2 (js ''data-x'') (js ''1''),
                        HandlerCall 1 [1, 2] (Data (JObj [(js ''x'', JStr (js ''1''))]))]"
    "dataset ?w' 2 (js ''x'') = Some (js ''1'')" "dataset ?w' 3 (js ''x'') = None"
    by (simp_all add: processHandler_eq set_data_def engine_data_fields data_attribute_x)
  from h r c show ?thesis by blast
qed

text \<open>
  The claim as stated fails: the malformed provider comes first, a well-formed one
  follows. \<open>process\<close> throws and leaves the engine and the document as they were; the
  handler of the \<open>data\<close> trigger was not called and no attribute was written, although
  the second provider, processed on its own, does both.
\<close>

theorem C2_counterexample:
  "process (example_document [0, 1] (\<lambda>node. if node = 0 then bad else data_x)) engine_data
     = Threw (Error (js ''_processStyleProvider'') (js ''div'') SyntaxError) engine_data
   \<and> calls engine_data = []
   \<and> processStyleProvider (example_document [0, 1] (\<lambda>node. if node = 0 then bad else data_x))
        (Element 1) engine_data
     = Returned (engine_data\<lparr>dataset := (dataset engine_data)(1 := (dataset engine_data 1)(js ''x'' := Some (js ''1''))),
           calls := [SetAttribute 1 (js ''data-x'') (js ''1''),
                     HandlerCall 1 [1] (Data (JObj [(js ''x'', JStr (js ''1''))]))]\<rparr>)"
  by (simp add: process_def process_node_def example_document_fields provider_bad node_data_x engine_data_fields
        example_valid_data_x)


subsection \<open>C3: listeners after a second pass\<close>

text \<open>
  C3. The claim fails on the code. With the \<open>on\<close> trigger of part 1, which removes
  nothing, one element with an \<open>on\<close> expression has two listeners after two passes, and
  one click calls the registered handler twice. With the \<open>on\<close> trigger of part 4, which
  removes the listener it installed last, the same happens as soon as two providers
  carry an \<open>on\<close> expression: the listener remembered is the one of the other provider.
  With a single provider the trigger of part 4 does what the claim says: one call.
\<close>

theorem C3_listeners_accumulate:
  "(case process (example_document [0] (\<lambda>node. on_click)) engine_on of
      Returned w1 \<Rightarrow> (case process (example_document [0] (\<lambda>node. on_click)) w1 of
         Returned w2 \<Rightarrow> calls (dispatchEvent (click 0) w2) | Threw e w2 \<Rightarrow> [])
    | Threw e w1 \<Rightarrow> [])
   = [HandlerCall 1 [0] (Event (click 0)), HandlerCall 1 [0] (Event (click 0))]
  \<and> (case process (example_document [0, 1] (\<lambda>node. on_click)) engine_tracked of
      Returned w1 \<Rightarrow> (case process (example_document [0, 1] (\<lambda>node. on_click)) w1 of
         Returned w2 \<Rightarrow> calls (dispatchEvent (click 0) w2) | Threw e w2 \<Rightarrow> [])
    | Threw e w1 \<Rightarrow> [])
   = [HandlerCall 1 [0] (Event (click 0)), HandlerCall 1 [0] (Event (click 0))]
  \<and> (case process (example_document [0] (\<lambda>node. on_click)) engine_tracked of
      Returned w1 \<Rightarrow> (case process (example_document [0] (\<lambda>node. on_click)) w1 of
         Returned w2 \<Rightarrow> calls (dispatchEvent (click 0) w2) | Threw e w2 \<Rightarrow> [])
    | Threw e w1 \<Rightarrow> [])
   = [HandlerCall 1 [0] (Event (click 0))]"
  by (intro conjI) (rule untracked_two_passes tracked_two_passes tracked_single_provider)+


subsection \<open>C4: what a listener of the \<open>on\<close> trigger delivers\<close>

text \<open>
  C4. For every call of the \<open>on\<close> trigger of part 1 with a non-empty node list and
  arguments whose \<open>on\<close> member has an array \<open>events\<close>: the call returns; it leaves the
  registrations, the calls made so far and the datasets as they were; the listeners of a
  node afterwards are those it had and, on each affected node and for each event name,
  one entry whose callback is the function object created by this call; and whenever
  that function object is called with an event, it calls the handler dispatcher with the
  trigger identity of the \<open>on\<close> trigger, the payload \<open>{ event }\<close> and, as nodes, all the
  affected nodes when \<open>mode\<close> is \<open>"global"\<close>, and only the event's target otherwise
  (\<open>mode\<close> absent, \<open>"local"\<close> or anything else).
\<close>

theorem C4_on_listener:
  "nodes \<noteq> [] \<Longrightarrow> property args (js ''on'') = Some on \<Longrightarrow>
   property on (js ''events'') = Some (JArr events) \<Longrightarrow>
   \<exists>w'. triggerOn nodes args styleProvider w = Returned w'
     \<and> handlers w' = handlers w \<and> triggers w' = triggers w \<and> calls w' = calls w
     \<and> dataset w' = dataset w
     \<and> (\<forall>n l. l \<in> set (listeners w' n) \<longleftrightarrow>
           l \<in> set (listeners w n) \<or>
           (n \<in> set nodes \<and> (\<exists>ev \<in> set events. l =
              \<lparr>ltype = ev,
               callback = Closure (closures w) TriggerOn (mode_of (property on (js ''mode''))) nodes,
               capture = flatten (property on (js ''capture''))\<rparr>)))
     \<and> (\<forall>ev v. fire (Closure (closures w) TriggerOn (mode_of (property on (js ''mode''))) nodes) ev v
           = processHandler
               (if property on (js ''mode'') = Some (JStr (js ''global'')) then nodes else [target ev])
               (Event ev) TriggerOn v)"
proof -
  assume a: "nodes \<noteq> []" "property args (js ''on'') = Some on"
    "property on (js ''events'') = Some (JArr events)"
  have fire: "fire (Closure k TriggerOn (mode_of (property on (js ''mode''))) nodes) ev v
           = processHandler
               (if property on (js ''mode'') = Some (JStr (js ''global'')) then nodes else [target ev])
               (Event ev) TriggerOn v" for k ev v
    by (simp add: mode_of_global)
  define w' where "w' = fold (\<lambda>ev u. fold (\<lambda>node u. addEventListener node ev
         (Closure (closures w) TriggerOn (mode_of (property on (js ''mode''))) nodes)
         (property on (js ''capture'')) u) nodes u) events (w\<lparr>closures := Suc (closures w)\<rparr>)"
  have r: "triggerOn nodes args styleProvider w = Returned w'"
    unfolding w'_def by (rule triggerOn_valid[OF a])
  have f: "handlers w' = handlers w" "triggers w' = triggers w" "calls w' = calls w"
    "dataset w' = dataset w"
    unfolding w'_def by (simp_all add: frame_install_events)
  have l: "l \<in> set (listeners w' n) \<longleftrightarrow>
           l \<in> set (listeners w n) \<or>
           (n \<in> set nodes \<and> (\<exists>ev \<in> set events. l =
              \<lparr>ltype = ev,
               callback = Closure (closures w) TriggerOn (mode_of (property on (js ''mode''))) nodes,
               capture = flatten (property on (js ''capture''))\<rparr>))" for n l
    unfolding w'_def by (simp add: install_events)
  from r f l fire show ?thesis by blast
qed

theorem C4_on_listener_witness:
  "[0, 1] \<noteq> ([] :: node list)
   \<and> property (JObj [(js ''on'', JObj [(js ''events'', JArr [JStr (js ''click'')])])]) (js ''on'')
       = Some (JObj [(js ''events'', JArr [JStr (js ''click'')])])
   \<and> property (JObj [(js ''events'', JArr [JStr (js ''click'')])]) (js ''events'')
       = Some (JArr [JStr (js ''click'')])
   \<and> property (JObj [(js ''on'', JObj [(js ''events'', JArr [JStr (js ''click'')]), (js ''mode'', JStr (js ''global''))])]) (js ''on'')
       = Some (JObj [(js ''events'', JArr [JStr (js ''click'')]), (js ''mode'', JStr (js ''global''))])
   \<and> property (JObj [(js ''events'', JArr [JStr (js ''click'')]), (js ''mode'', JStr (js ''global''))]) (js ''events'')
       = Some (JArr [JStr (js ''click'')])
   \<and> (\<exists>w'. triggerOn [0, 1] (JObj [(js ''on'', JObj [(js ''events'', JArr [JStr (js ''click'')])])])
              (Rule (CSSStyleRule (js ''div'') on_click [])) engine_on = Returned w'
         \<and> listeners w' 1 = [\<lparr>ltype = JStr (js ''click''),
                                callback = Closure 0 TriggerOn (js ''local'') [0, 1], capture = False\<rparr>]
         \<and> calls (dispatchEvent (click 1) w') = [HandlerCall 1 [1] (Event (click 1))])
   \<and> (\<exists>w'. triggerOn [0, 1] (JObj [(js ''on'', JObj [(js ''events'', JArr [JStr (js ''click'')]), (js ''mode'', JStr (js ''global''))])])
              (Rule (CSSStyleRule (js ''div'') on_click [])) engine_on = Returned w'
         \<and> calls (fire (Closure 0 TriggerOn (js ''global'') [0, 1]) (click 1) w')
             = [HandlerCall 1 [0, 1] (Event (click 1))])"
proof -
  let ?on = "JObj [(js ''events'', JArr [JStr (js ''click'')])]"
  let ?args = "JObj [(js ''on'', ?on)]"
  let ?on' = "JObj [(js ''events'', JArr [JStr (js ''click'')]), (js ''mode'', JStr (js ''global''))]"
  let ?args' = "JObj [(js ''on'', ?on')]"
  let ?p = "Rule (CSSStyleRule (js ''div'') on_click [])"
  have h: "[0, 1] \<noteq> ([] :: node list)" "property ?args (js ''on'') = Some ?on"
    "property ?on (js ''events'') = Some (JArr [JStr (js ''click'')])"
    and h': "property ?args' (js ''on'') = Some ?on'"
    "property ?on' (js ''events'') = Some (JArr [JStr (js ''click'')])"
    by (simp_all add: property_def own_properties_def)
  have m: "mode_of (property ?on (js ''mode'')) = js ''local''"
    "mode_of (property ?on' (js ''mode'')) = js ''global''"
    "property ?on (js ''mode'') \<noteq> Some (JStr (js ''global''))"
    "property ?on' (js ''mode'') = Some (JStr (js ''global''))"
    "flatten (property ?on (js ''capture'')) = False"
    by (simp_all add: mode_of_global property_def own_properties_def flatten_def ToBoolean_def)
  from C4_on_listener[OF h, of ?p engine_on]
  obtain w' where w': "triggerOn [0, 1] ?args ?p engine_on = Returned w'"
    "handlers w' = handlers engine_on" "calls w' = calls engine_on"
    "\<forall>n l. l \<in> set (listeners w' n) \<longleftrightarrow> l \<in> set (listeners engine_on n) \<or>
           (n \<in> set [0, 1] \<and> (\<exists>ev \<in> set [JStr (js ''click'')]. l =
              \<lparr>ltype = ev,
               callback = Closure (closures engine_on) TriggerOn (mode_of (property ?on (js ''mode''))) [0, 1],
               capture = flatten (property ?on (js ''capture''))\<rparr>))"
    "\<forall>ev v. fire (Closure (closures engine_on) TriggerOn (mode_of (property ?on (js ''mode''))) [0, 1]) ev v
           = processHandler
               (if property ?on (js ''mode'') = Some (JStr (js ''global'')) then [0, 1] else [target ev])
               (Event ev) TriggerOn v"
    by blast
  have r: "triggerOn [0, 1] ?args ?p engine_on = Returned w'" by (rule w'(1))
  have l: "listeners w' 1 = [\<lparr>ltype = JStr (js ''click''),
                                callback = Closure 0 TriggerOn (js ''local'') [0, 1], capture = False\<rparr>]"
    using r by (simp add: triggerOn_def property_def own_properties_def mode_of_def MODES_def
         addEventListener_def flatten_def ToBoolean_def engine_on_fields Let_def) auto
  have f: "fire (Closure 0 TriggerOn (js ''local'') [0, 1]) (click 1) w'
      = processHandler [1] (Event (click 1)) TriggerOn w'"
    using w'(5) m by (simp add: engine_on_fields click_def)
  have c: "calls (dispatchEvent (click 1) w') = [HandlerCall 1 [1] (Event (click 1))]"
    unfolding dispatchEvent_def using l f w'(2,3)
    by (simp add: click_def processHandler_eq engine_on_fields)
  from C4_on_listener[OF h(1) h', of ?p engine_on]
  obtain w'' where w'': "triggerOn [0, 1] ?args' ?p engine_on = Returned w''"
    "handlers w'' = handlers engine_on" "calls w'' = calls engine_on"
    "\<forall>ev v. fire (Closure (closures engine_on) TriggerOn (mode_of (property ?on' (js ''mode''))) [0, 1]) ev v
           = processHandler
               (if property ?on' (js ''mode'') = Some (JStr (js ''global'')) then [0, 1] else [target ev])
               (Event ev) TriggerOn v"
    by blast
  have g: "calls (fire (Closure 0 TriggerOn (js ''global'') [0, 1]) (click 1) w'')
             = [HandlerCall 1 [0, 1] (Event (click 1))]"
    using w''(2,3,4) m by (simp add: engine_on_fields processHandler_eq)
  from h h' r l c w''(1) g show ?thesis by blast
qed


subsection \<open>C5: the \<open>data\<close> trigger\<close>

text \<open>
  C5, as the code has it. For every call of the \<open>data\<close> trigger with arguments other
  than \<open>null\<close>: when the node list is not empty, every node has a \<open>dataset\<close>, \<open>data\<close> is
  an object (or an array, or \<open>null\<close>) that has no member named \<open>hasOwnProperty\<close>, and
  every own key of \<open>data\<close> is a name the dataset setter takes with a value that converts
  to a string, the call returns, having done for each own key of \<open>data\<close> in turn: first
  set on every affected node, in the order of the nodes, the attribute of the key to the
  string of the key's value, then called every handler registered for the \<open>data\<close>
  trigger, in the order of registration, with the affected nodes and the payload
  \<open>{ data }\<close>. The attribute of a key is \<open>data-\<close> followed by the key with each capital
  replaced by a hyphen and the lower-case letter, so it is \<open>data-<key>\<close> for a key
  without capitals. Afterwards the dataset of every affected node has every key with
  its string, and nothing else has changed. When the node list is empty or \<open>data\<close> is
  missing the call returns with nothing changed.
\<close>

theorem C5_data_trigger:
  "args \<noteq> JNull \<Longrightarrow>
     (nodes \<noteq> [] \<and> property args (js ''data'') = Some d \<and> typeof (Some d) = js ''object''
        \<and> property d (js ''hasOwnProperty'') = None
        \<and> list_all (has_dataset doc) nodes
        \<and> list_all (settable doc d) (map fst (own_properties d)) \<longrightarrow>
        (\<exists>w'. triggerData doc nodes args styleProvider w = Returned w'
           \<and> calls w' = calls w @ concat (map (\<lambda>name.
                   map (\<lambda>node. SetAttribute node (data_attribute name) (string_of (property d name))) nodes
                 @ map (\<lambda>h. HandlerCall (fn h) nodes (Data d))
                     (filter (\<lambda>h. trigger h = TriggerData) (handlers w)))
               (map fst (own_properties d)))
           \<and> (\<forall>n k. dataset w' n k =
                 (if n \<in> set nodes \<and> k \<in> set (map fst (own_properties d))
                  then Some (string_of (property d k)) else dataset w n k))
           \<and> handlers w' = handlers w \<and> triggers w' = triggers w \<and> listeners w' = listeners w))
   \<and> (list_all (\<lambda>c. \<not> is_capital c) name \<longrightarrow> data_attribute name = js ''data-'' @ name)
   \<and> (nodes = [] \<or> property args (js ''data'') = None
        \<longrightarrow> triggerData doc nodes args styleProvider w = Returned w)"
proof (intro conjI impI)
  assume n: "args \<noteq> JNull"
  assume "nodes \<noteq> [] \<and> property args (js ''data'') = Some d \<and> typeof (Some d) = js ''object''
        \<and> property d (js ''hasOwnProperty'') = None
        \<and> list_all (has_dataset doc) nodes
        \<and> list_all (settable doc d) (map fst (own_properties d))"
  then have a: "nodes \<noteq> []" "property args (js ''data'') = Some d" "typeof (Some d) = js ''object''"
    "property d (js ''hasOwnProperty'') = None" "list_all (has_dataset doc) nodes"
    "list_all (settable doc d) (map fst (own_properties d))" by simp_all
  define w' where "w' = fold (\<lambda>name v. processHandler nodes (Data d) TriggerData
       (fold (\<lambda>node. set_data node name (string_of (property d name))) nodes v))
       (map fst (own_properties d)) w"
  have "triggerData doc nodes args styleProvider w
      = forEach (map fst (own_properties d)) (triggerData_body doc nodes d) w"
    using n a(1,2,3) by (cases args) (simp_all add: triggerData_def)
  also have "\<dots> = Returned w'"
    unfolding w'_def using a(4) _ a(5,6) by (rule forEach_body) simp
  finally have r: "triggerData doc nodes args styleProvider w = Returned w'" .
  show "\<exists>w'. triggerData doc nodes args styleProvider w = Returned w'
           \<and> calls w' = calls w @ concat (map (\<lambda>name.
                   map (\<lambda>node. SetAttribute node (data_attribute name) (string_of (property d name))) nodes
                 @ map (\<lambda>h. HandlerCall (fn h) nodes (Data d))
                     (filter (\<lambda>h. trigger h = TriggerData) (handlers w)))
               (map fst (own_properties d)))
           \<and> (\<forall>n k. dataset w' n k =
                 (if n \<in> set nodes \<and> k \<in> set (map fst (own_properties d))
                  then Some (string_of (property d k)) else dataset w n k))
           \<and> handlers w' = handlers w \<and> triggers w' = triggers w \<and> listeners w' = listeners w"
    apply (rule exI[of _ w'])
    apply (intro conjI allI r)
    unfolding w'_def by (rule steps_fields)+
next
  assume "list_all (\<lambda>c. \<not> is_capital c) name"
  then show "data_attribute name = js ''data-'' @ name"
    by (simp add: data_attribute_def hyphenate_plain)
next
  assume n: "args \<noteq> JNull"
  assume "nodes = [] \<or> property args (js ''data'') = None"
  then show "triggerData doc nodes args styleProvider w = Returned w"
    using n by (cases args) (auto simp add: triggerData_def)
qed

theorem C5_data_trigger_witness:
  "JObj [(js ''data'', JObj [(js ''x'', JStr (js ''1'')), (js ''y'', JNum (js ''2''))])] \<noteq> JNull
   \<and> [0, 1] \<noteq> ([] :: node list)
   \<and> property (JObj [(js ''data'', JObj [(js ''x'', JStr (js ''1'')), (js ''y'', JNum (js ''2''))])]) (js ''data'')
       = Some (JObj [(js ''x'', JStr (js ''1'')), (js ''y'', JNum (js ''2''))])
   \<and> typeof (Some (JObj [(js ''x'', JStr (js ''1'')), (js ''y'', JNum (js ''2''))])) = js ''object''
   \<and> property (JObj [(js ''x'', JStr (js ''1'')), (js ''y'', JNum (js ''2''))]) (js ''hasOwnProperty'') = None
   \<and> list_all (has_dataset (example_document [0, 1] (\<lambda>node. []))) [0, 1]
   \<and> list_all (settable (example_document [0, 1] (\<lambda>node. []))
        (JObj [(js ''x'', JStr (js ''1'')), (js ''y'', JNum (js ''2''))]))
        (map fst (own_properties (JObj [(js ''x'', JStr (js ''1'')), (js ''y'', JNum (js ''2''))])))
   \<and> list_all (\<lambda>c. \<not> is_capital c) (js ''x'')
   \<and> data_attribute (js ''x'') = js ''data-'' @ js ''x''
   \<and> (\<exists>w'. triggerData (example_document [0, 1] (\<lambda>node. [])) [0, 1]
              (JObj [(js ''data'', JObj [(js ''x'', JStr (js ''1'')), (js ''y'', JNum (js ''2''))])])
              (Element 0) engine_data = Returned w'
         \<and> dataset w' 0 (js ''x'') = Some (js ''1'') \<and> dataset w' 1 (js ''y'') = Some (js ''2'')
         \<and> dataset w' 2 (js ''x'') = None
         \<and> calls w' = [SetAttribute 0 (js ''data-x'') (js ''1''), SetAttribute 1 (js ''data-x'') (js ''1''),
                        HandlerCall 1 [0, 1] (Data (JObj [(js ''x'', JStr (js ''1'')), (js ''y'', JNum (js ''2''))])),
                        SetAttribute 0 (js ''data-y'') (js ''2''), SetAttribute 1 (js ''data-y'') (js ''2''),
                        HandlerCall 1 [0, 1] (Data (JObj [(js ''x'', JStr (js ''1'')), (js ''y'', JNum (js ''2''))]))])
   \<and> property (JObj [(js ''on'', JNull)]) (js ''data'') = None
   \<and> triggerData (example_document [0, 1] (\<lambda>node. [])) [0, 1] (JObj [(js ''on'', JNull)]) (Element 0) engine_data
       = Returned engine_data"
proof -
  let ?d = "JObj [(js ''x'', JStr (js ''1'')), (js ''y'', JNum (js ''2''))]"
  let ?args = "JObj [(js ''data'', ?d)]"
  let ?doc = "example_document [0, 1] (\<lambda>node. [])"
  have y: "data_attribute (js ''y'') = js ''data-y''" "\<not> hyphen_lower (js ''y'')"
    "example_valid_name (js ''data-y'')" "list_all (\<lambda>c. \<not> is_capital c) (js ''x'')"
    by (simp_all add: data_attribute_def is_capital_def example_valid_name_def is_letter_def js_def)
  have p: "property ?d (js ''x'') = Some (JStr (js ''1''))" "property ?d (js ''y'') = Some (JNum (js ''2''))"
    "map fst (own_properties ?d) = [js ''x'', js ''y'']"
    by (simp_all add: property_def own_properties_def)
  have s: "string_of (Some (JStr (js ''1''))) = js ''1''" "string_of (Some (JNum (js ''2''))) = js ''2''"
    by (simp_all add: string_of_def ToString_value_def)
  have h: "?args \<noteq> JNull" "[0, 1] \<noteq> ([] :: node list)" "property ?args (js ''data'') = Some ?d"
    "typeof (Some ?d) = js ''object''" "property ?d (js ''hasOwnProperty'') = None"
    "property (JObj [(js ''on'', JNull)]) (js ''data'') = None"
    by (simp_all add: property_def own_properties_def)
  have g: "list_all (has_dataset ?doc) [0, 1]"
    "list_all (settable ?doc ?d) (map fst (own_properties ?d))"
    by (simp_all add: p settable_def example_document_fields data_attribute_x hyphen_lower_x
          example_valid_data_x y ToString_value_def)
  from C5_data_trigger[of ?args "[0, 1]" ?d ?doc "Element 0" engine_data "js ''x''"] h g y(4)
  obtain w' where w': "triggerData ?doc [0, 1] ?args (Element 0) engine_data = Returned w'"
    "calls w' = calls engine_data @ concat (map (\<lambda>name.
                   map (\<lambda>node. SetAttribute node (data_attribute name) (string_of (property ?d name))) [0, 1]
                 @ map (\<lambda>h. HandlerCall (fn h) [0, 1] (Data ?d))
                     (filter (\<lambda>h. trigger h = TriggerData) (handlers engine_data)))
               (map fst (own_properties ?d)))"
    "\<forall>n k. dataset w' n k = (if n \<in> set [0, 1] \<and> k \<in> set (map fst (own_properties ?d))
                  then Some (string_of (property ?d k)) else dataset engine_data n k)"
    and x: "data_attribute (js ''x'') = js ''data-'' @ js ''x''"
    by blast
  have 1: "dataset w' 0 (js ''x'') = Some (js ''1'')" "dataset w' 1 (js ''y'') = Some (js ''2'')"
    "dataset w' 2 (js ''x'') = None"
    using w'(3) by (simp_all add: p s engine_data_fields)
  have 2: "calls w' = [SetAttribute 0 (js ''data-x'') (js ''1''), SetAttribute 1 (js ''data-x'') (js ''1''),
                        HandlerCall 1 [0, 1] (Data ?d),
                        SetAttribute 0 (js ''data-y'') (js ''2''), SetAttribute 1 (js ''data-y'') (js ''2''),
                        HandlerCall 1 [0, 1] (Data ?d)]"
    using w'(2) by (simp add: p s y data_attribute_x engine_data_fields)
  from C5_data_trigger[of "JObj [(js ''on'', JNull)]" "[0, 1]" ?d ?doc "Element 0" engine_data "js ''x''"] h(6)
  have 3: "triggerData ?doc [0, 1] (JObj [(js ''on'', JNull)]) (Element 0) engine_data = Returned engine_data"
    by simp
  from h g y(4) x w'(1) 1 2 3 show ?thesis by blast
qed

text \<open>
  The claim as stated fails on these inputs. A \<open>data\<close> object with a member named
  \<open>hasOwnProperty\<close>: the guard of the loop calls that member and throws before anything
  is written. Arguments that are \<open>null\<close> (the expression \<open>stylish(null)\<close> on an element):
  there is no \<open>data\<close>, and the parameter pattern \<open>{ data }\<close> throws, where the claim has a
  no-op. A key in which a hyphen is followed by a lower-case letter, as in
  \<open>{"data":{"a-b":"1"}}\<close>: the dataset setter throws, nothing is written and no handler
  is called. A key with a capital, as in \<open>{"data":{"fooBar":"1"}}\<close>: the attribute set
  is \<open>data-foo-bar\<close>, not \<open>data-fooBar\<close>. A value that is no string, as in
  \<open>{"data":{"n":[1,null]}}\<close>: the node gets the string \<open>1,\<close> and not the value.
\<close>

theorem C5_counterexample:
  "triggerData (example_document [0] (\<lambda>node. [])) [0]
      (JObj [(js ''data'', JObj [(js ''hasOwnProperty'', JStr (js ''1''))])])
      (Element 0) engine_data = Threw TypeError engine_data
   \<and> triggerData (example_document [0] (\<lambda>node. [])) [0] JNull (Element 0) engine_data
       = Threw TypeError engine_data
   \<and> triggerData (example_document [0] (\<lambda>node. [])) [0]
        (JObj [(js ''data'', JObj [(js ''a-b'', JStr (js ''1''))])]) (Element 0) engine_data
       = Threw (DOMException (js ''SyntaxError'')) engine_data
   \<and> triggerData (example_document [0] (\<lambda>node. [])) [0]
        (JObj [(js ''data'', JObj [(js ''fooBar'', JStr (js ''1''))])]) (Element 0) engine_data
       = Returned (engine_data\<lparr>
           dataset := (dataset engine_data)(0 := (dataset engine_data 0)(js ''fooBar'' := Some (js ''1''))),
           calls := [SetAttribute 0 (js ''data-foo-bar'') (js ''1''),
                     HandlerCall 1 [0] (Data (JObj [(js ''fooBar'', JStr (js ''1''))]))]\<rparr>)
   \<and> triggerData (example_document [0] (\<lambda>node. [])) [0]
        (JObj [(js ''data'', JObj [(js ''n'', JArr [JNum (js ''1''), JNull])])]) (Element 0) engine_data
       = Returned (engine_data\<lparr>
           dataset := (dataset engine_data)(0 := (dataset engine_data 0)(js ''n'' := Some (js ''1,''))),
           calls := [SetAttribute 0 (js ''data-n'') (js ''1,''),
                     HandlerCall 1 [0] (Data (JObj [(js ''n'', JArr [JNum (js ''1''), JNull])]))]\<rparr>)"
proof -
  let ?doc = "example_document [0] (\<lambda>node. [])"
  have n: "hyphen_lower (js ''a-b'')" "\<not> hyphen_lower (js ''fooBar'')" "\<not> hyphen_lower (js ''n'')"
    "data_attribute (js ''fooBar'') = js ''data-foo-bar''" "data_attribute (js ''n'') = js ''data-n''"
    "example_valid_name (js ''data-foo-bar'')" "example_valid_name (js ''data-n'')"
    "js ''1'' @ [44] = js ''1,''"
    by (simp_all add: data_attribute_def is_capital_def example_valid_name_def is_letter_def js_def)
  have 1: "triggerData ?doc [0] (JObj [(js ''data'', JObj [(js ''hasOwnProperty'', JStr (js ''1''))])])
      (Element 0) engine_data = Threw TypeError engine_data"
    "triggerData ?doc [0] JNull (Element 0) engine_data = Threw TypeError engine_data"
    by (simp_all add: triggerData_def triggerData_body_def property_def own_properties_def)
  have 2: "triggerData ?doc [0] (JObj [(js ''data'', JObj [(js ''a-b'', JStr (js ''1''))])]) (Element 0) engine_data
       = Threw (DOMException (js ''SyntaxError'')) engine_data"
    by (simp add: triggerData_def triggerData_body_def dataset_set_def ToString_value_def
          property_def own_properties_def example_document_fields n)
  have 3: "triggerData ?doc [0] (JObj [(js ''data'', JObj [(js ''fooBar'', JStr (js ''1''))])]) (Element 0) engine_data
       = Returned (engine_data\<lparr>
           dataset := (dataset engine_data)(0 := (dataset engine_data 0)(js ''fooBar'' := Some (js ''1''))),
           calls := [SetAttribute 0 (js ''data-foo-bar'') (js ''1''),
                     HandlerCall 1 [0] (Data (JObj [(js ''fooBar'', JStr (js ''1''))]))]\<rparr>)"
    by (simp add: triggerData_def triggerData_body_def dataset_set_def set_data_def ToString_value_def
          property_def own_properties_def example_document_fields n processHandler_eq engine_data_fields)
  have 4: "triggerData ?doc [0] (JObj [(js ''data'', JObj [(js ''n'', JArr [JNum (js ''1''), JNull])])]) (Element 0) engine_data
       = Returned (engine_data\<lparr>
           dataset := (dataset engine_data)(0 := (dataset engine_data 0)(js ''n'' := Some (js ''1,''))),
           calls := [SetAttribute 0 (js ''data-n'') (js ''1,''),
                     HandlerCall 1 [0] (Data (JObj [(js ''n'', JArr [JNum (js ''1''), JNull])]))]\<rparr>)"
    by (simp add: triggerData_def triggerData_body_def dataset_set_def set_data_def ToString_value_def
          property_def own_properties_def example_document_fields n processHandler_eq engine_data_fields)
  from 1 2 3 4 show ?thesis by blast
qed


subsection \<open>C6: the handler dispatcher\<close>

text \<open>
  C6. For every call \<open>_processHandler(nodes, payload, trigger)\<close>: the callbacks of the
  registrations whose trigger is \<open>trigger\<close> are called in registration order, each with
  \<open>(nodes, payload)\<close>, and nothing else changes; when no registration has that trigger
  nothing is called and the call still returns, with the state it was given.
\<close>

theorem C6_dispatch:
  "processHandler nodes payload trg w
     = w\<lparr>calls := calls w @ map (\<lambda>h. HandlerCall (fn h) nodes payload)
                                 (filter (\<lambda>h. trigger h = trg) (handlers w))\<rparr>
   \<and> (filter (\<lambda>h. trigger h = trg) (handlers w) = [] \<longrightarrow> processHandler nodes payload trg w = w)"
  by (simp add: processHandler_eq)

theorem C6_dispatch_witness:
  "calls (processHandler [4, 5] (Data JNull) TriggerOn engine_both)
     = [HandlerCall 1 [4, 5] (Data JNull), HandlerCall 3 [4, 5] (Data JNull)]
   \<and> filter (\<lambda>h. trigger h = Custom 0) (handlers engine_both) = []
   \<and> processHandler [4, 5] (Data JNull) (Custom 0) engine_both = engine_both"
  using C6_dispatch[of "[4, 5]" "Data JNull" TriggerOn engine_both]
    C6_dispatch[of "[4, 5]" "Data JNull" "Custom 0" engine_both]
  by (simp add: engine_both_fields)


subsection \<open>C7: \<open>removeHandler\<close>\<close>

text \<open>
  C7. The claim fails on the code: of two adjacent registrations of the same trigger
  and callback, \<open>removeHandler\<close> removes the first and steps over the second, which
  stays registered.
\<close>

theorem C7_adjacent_registration_survives:
  "removeHandler TriggerOn 1 (Stylish\<lparr>handlers :=
      [\<lparr>trigger = TriggerOn, fn = 1\<rparr>, \<lparr>trigger = TriggerOn, fn = 1\<rparr>]\<rparr>)
   = Stylish\<lparr>handlers := [\<lparr>trigger = TriggerOn, fn = 1\<rparr>]\<rparr>"
  by (simp add: removeHandler_def Stylish_def splice1_def)


subsection \<open>C8: unescaping twice\<close>

text \<open>
  C8, as the code has it. Applying the unescape step to a text it produced gives the
  same text exactly when the text it was produced from has no backslash directly in
  front of a backslash-escaped quote (no two backslashes followed by \<open>'\<close> or \<open>"\<close>).
  In general the step leaves a text as it is exactly when the text has no backslash
  followed by a quote.
\<close>

theorem C8_unescape_idempotent_iff:
  "(replace_REGEXP_ESCAPED_QUOTES (replace_REGEXP_ESCAPED_QUOTES s) = replace_REGEXP_ESCAPED_QUOTES s
      \<longleftrightarrow> \<not> has_escaped_escape s)
   \<and> (replace_REGEXP_ESCAPED_QUOTES s = s \<longleftrightarrow> \<not> has_escaped_quote s)"
  by (simp add: unescape_fix unescape_out)

theorem C8_unescape_idempotent_witness:
  "replace_REGEXP_ESCAPED_QUOTES (replace_REGEXP_ESCAPED_QUOTES ([92, 39] @ js ''a'' @ [92, 34]))
     = replace_REGEXP_ESCAPED_QUOTES ([92, 39] @ js ''a'' @ [92, 34])
   \<and> replace_REGEXP_ESCAPED_QUOTES ([92, 39] @ js ''a'' @ [92, 34]) = js ''\"a\"''"
proof -
  let ?s = "[92, 39] @ js ''a'' @ [92, 34]"
  have "\<not> has_escaped_escape ?s" by (simp add: js_def is_quote_def)
  with C8_unescape_idempotent_iff[of ?s]
  have "replace_REGEXP_ESCAPED_QUOTES (replace_REGEXP_ESCAPED_QUOTES ?s) = replace_REGEXP_ESCAPED_QUOTES ?s"
    by blast
  moreover have "replace_REGEXP_ESCAPED_QUOTES ?s = js ''\"a\"''"
    by (simp add: js_def is_quote_def)
  ultimately show ?thesis by blast
qed

text \<open>
  The claim as stated fails on a valid expression: the content
  \<open>stylish("a\\"b")\<close>. The extracted text is \<open>"a\"b"\<close>, the JSON text of the string
  \<open>a"b\<close>; unescaping it once more gives \<open>"a"b"\<close>.
\<close>

theorem C8_counterexample:
  "is_expression (js ''stylish(\"a'' @ [92, 92] @ js ''\"b\")'') (js ''\"a'' @ [92, 92] @ js ''\"b\"'')
   \<and> extractArgumentString (js ''stylish(\"a'' @ [92, 92] @ js ''\"b\")'') = js ''\"a'' @ [92] @ js ''\"b\"''
   \<and> replace_REGEXP_ESCAPED_QUOTES (js ''\"a'' @ [92, 92] @ js ''\"b\"'') = js ''\"a'' @ [92] @ js ''\"b\"''
   \<and> replace_REGEXP_ESCAPED_QUOTES (js ''\"a'' @ [92] @ js ''\"b\"'') = js ''\"a\"b\"''
   \<and> js ''\"a\"b\"'' \<noteq> js ''\"a'' @ [92] @ js ''\"b\"''"
  by (simp add: is_expression_def optional_quotes_def extract_defs)


subsection \<open>C9: what the walker passes on\<close>





subsection \<open>C10: \<open>removeTrigger\<close> and the handler list\<close>

text \<open>
  C10. For every instance and every trigger \<open>t\<close> of its trigger list:
  \<open>removeTrigger(t)\<close> removes the first entry \<open>t\<close> from the trigger list and keeps, of
  the handler list, exactly the registrations whose trigger is \<open>t\<close>; no registration of
  another trigger is left.
\<close>

theorem C10_removeTrigger:
  "t \<in> set (triggers this) \<Longrightarrow>
     triggers (removeTrigger t this) = remove1 t (triggers this)
   \<and> handlers (removeTrigger t this) = filter (\<lambda>h. trigger h = t) (handlers this)
   \<and> (\<forall>h \<in> set (handlers this). trigger h \<noteq> t \<longrightarrow> h \<notin> set (handlers (removeTrigger t this)))"
  using indexOf_in[of t "triggers this"] splice1_indexOf[of t "triggers this"]
  by (auto simp: removeTrigger_def Let_def)

theorem C10_removeTrigger_witness:
  "TriggerData \<in> set (triggers engine_both)
   \<and> triggers (removeTrigger TriggerData engine_both) = [TriggerOn]
   \<and> handlers (removeTrigger TriggerData engine_both) = [\<lparr>trigger = TriggerData, fn = 2\<rparr>]
   \<and> \<lparr>trigger = TriggerOn, fn = 1\<rparr> \<notin> set (handlers (removeTrigger TriggerData engine_both))"
  using C10_removeTrigger[of TriggerData engine_both]
  by (simp add: engine_both_fields)

end
